theory Spec2Isabelle
  imports Main "HOL-Library.Word"
begin

unbundle bit_operations_syntax

section \<open>The 16x2 LCD driver (lcd_16x2.c, lcd_16x2.h)\<close>

subsection \<open>Data model\<close>

type_synonym u8 = "8 word"
type_synonym u16 = "16 word"
type_synonym u32 = "32 word"

text \<open>
  The driver talks to two external providers only: \<open>nrf_gpio_pin_write\<close> and the two
  \<open>nrf_delay\<close> functions. Each call is recorded, in order, with its arguments.
\<close>

datatype event =
    PinWrite u32 u32    \<comment> \<open>\<open>nrf_gpio_pin_write(pin_no, value)\<close>\<close>
  | DelayUs u32         \<comment> \<open>\<open>nrf_delay_us(us_time)\<close>\<close>
  | DelayMs u32         \<comment> \<open>\<open>nrf_delay_ms(ms_time)\<close>\<close>

text \<open>
  The globals of lcd_16x2.c (lines 20 to 29) as a record. \<open>trace\<close> is the recording of the
  provider calls made so far; \<open>sent\<close> is the recording of the arguments \<open>(value, mode)\<close> of
  the calls of \<open>lcd_send\<close> made so far, and \<open>held\<close> records, for each of these calls, the
  values \<open>(display_control, display_mode)\<close> that the globals hold when the call is made.
  None of the three is read by the driver.
\<close>

record lcd_state =
  rs_pin :: u32
  en_pin :: u32
  dat4_pin :: u32
  dat5_pin :: u32
  dat6_pin :: u32
  dat7_pin :: u32
  display_function :: u8
  display_control :: u8
  display_mode :: u8
  trace :: "event list"
  sent :: "(u8 \<times> u8) list"
  held :: "(u8 \<times> u8) list"

text \<open>The static initialisers of the globals: everything is zero before \<open>lcd_init\<close>.\<close>

definition power_on_state :: lcd_state where
  "power_on_state =
     \<lparr>rs_pin = 0, en_pin = 0, dat4_pin = 0, dat5_pin = 0, dat6_pin = 0, dat7_pin = 0,
      display_function = 0, display_control = 0, display_mode = 0, trace = [], sent = [],
      held = []\<rparr>"

text \<open>\<open>uint8_t row_offsets[4] = {0x00, 0x40, 0x10, 0x50}\<close>; no function writes it.\<close>

definition row_offsets :: "u8 list" where
  "row_offsets = [0x00, 0x40, 0x10, 0x50]"

text \<open>Reading \<open>row_offsets[i]\<close>: outside the array the C program has no defined result.\<close>

definition row_offsets_at :: "nat \<Rightarrow> u8 option" where
  "row_offsets_at i = (if i < length row_offsets then Some (row_offsets ! i) else None)"

subsection \<open>The constants of lcd_16x2.h\<close>

definition LCD_CLEARDISPLAY :: u8 where "LCD_CLEARDISPLAY = 0x01"
definition LCD_RETURNHOME :: u8 where "LCD_RETURNHOME = 0x02"
definition LCD_ENTRYMODESET :: u8 where "LCD_ENTRYMODESET = 0x04"
definition LCD_DISPLAYCONTROL :: u8 where "LCD_DISPLAYCONTROL = 0x08"
definition LCD_CURSORSHIFT :: u8 where "LCD_CURSORSHIFT = 0x10"
definition LCD_FUNCTIONSET :: u8 where "LCD_FUNCTIONSET = 0x20"
definition LCD_SETDDRAMADDR :: u8 where "LCD_SETDDRAMADDR = 0x80"

definition LCD_ENTRYLEFT :: u8 where "LCD_ENTRYLEFT = 0x02"
definition LCD_ENTRYSHIFTINCREMENT :: u8 where "LCD_ENTRYSHIFTINCREMENT = 0x01"
definition LCD_ENTRYSHIFTDECREMENT :: u8 where "LCD_ENTRYSHIFTDECREMENT = 0x00"

definition LCD_DISPLAYON :: u8 where "LCD_DISPLAYON = 0x04"
definition LCD_CURSORON :: u8 where "LCD_CURSORON = 0x02"
definition LCD_CURSOROFF :: u8 where "LCD_CURSOROFF = 0x00"
definition LCD_BLINKON :: u8 where "LCD_BLINKON = 0x01"
definition LCD_BLINKOFF :: u8 where "LCD_BLINKOFF = 0x00"

definition LCD_DISPLAYMOVE :: u8 where "LCD_DISPLAYMOVE = 0x08"
definition LCD_MOVERIGHT :: u8 where "LCD_MOVERIGHT = 0x04"
definition LCD_MOVELEFT :: u8 where "LCD_MOVELEFT = 0x00"

definition LCD_4BITMODE :: u8 where "LCD_4BITMODE = 0x00"
definition LCD_2LINE :: u8 where "LCD_2LINE = 0x08"
definition LCD_5x8DOTS :: u8 where "LCD_5x8DOTS = 0x00"

definition NUM_LINES :: int where "NUM_LINES = 2"

lemmas lcd_consts =
  LCD_CLEARDISPLAY_def LCD_RETURNHOME_def LCD_ENTRYMODESET_def LCD_DISPLAYCONTROL_def
  LCD_CURSORSHIFT_def LCD_FUNCTIONSET_def LCD_SETDDRAMADDR_def LCD_ENTRYLEFT_def
  LCD_ENTRYSHIFTINCREMENT_def LCD_ENTRYSHIFTDECREMENT_def LCD_DISPLAYON_def
  LCD_CURSORON_def LCD_CURSOROFF_def LCD_BLINKON_def LCD_BLINKOFF_def
  LCD_DISPLAYMOVE_def LCD_MOVERIGHT_def LCD_MOVELEFT_def LCD_4BITMODE_def
  LCD_2LINE_def LCD_5x8DOTS_def

subsection \<open>Low-level functions (lines 379 to 407)\<close>

definition delay_us :: "u32 \<Rightarrow> lcd_state \<Rightarrow> lcd_state" where
  "delay_us us_time s = s\<lparr>trace := trace s @ [DelayUs us_time]\<rparr>"

definition delay_ms :: "u32 \<Rightarrow> lcd_state \<Rightarrow> lcd_state" where
  "delay_ms ms_time s = s\<lparr>trace := trace s @ [DelayMs ms_time]\<rparr>"

definition pin_write :: "u32 \<Rightarrow> u32 \<Rightarrow> lcd_state \<Rightarrow> lcd_state" where
  "pin_write pin_no v s = s\<lparr>trace := trace s @ [PinWrite pin_no v]\<rparr>"

subsection \<open>Transmission (lines 294 to 367)\<close>

definition enable_pulse :: "lcd_state \<Rightarrow> lcd_state" where
  "enable_pulse s =
     (let s = pin_write (en_pin s) 0 s;
          s = delay_us 1 s;
          s = pin_write (en_pin s) 1 s;
          s = delay_us 1 s;
          s = pin_write (en_pin s) 0 s
      in delay_us 100 s)"

definition lcd_write_data :: "u8 \<Rightarrow> lcd_state \<Rightarrow> lcd_state" where
  "lcd_write_data data s =
     (let s = (if data AND 1 \<noteq> 0 then pin_write (dat4_pin s) 1 s
               else pin_write (dat4_pin s) 0 s);
          s = (if data AND 2 \<noteq> 0 then pin_write (dat5_pin s) 1 s
               else pin_write (dat5_pin s) 0 s);
          s = (if data AND 4 \<noteq> 0 then pin_write (dat6_pin s) 1 s
               else pin_write (dat6_pin s) 0 s);
          s = (if data AND 8 \<noteq> 0 then pin_write (dat7_pin s) 1 s
               else pin_write (dat7_pin s) 0 s)
      in enable_pulse s)"

text \<open>
  \<open>value >> 4\<close> is computed on \<open>int\<close> and converted back to \<open>uint8_t\<close> at the call, which
  is the logical shift of the byte; \<open>mode\<close> is widened to the \<open>uint32_t\<close> of \<open>pin_write\<close>.
\<close>

definition lcd_send :: "u8 \<Rightarrow> u8 \<Rightarrow> lcd_state \<Rightarrow> lcd_state" where
  "lcd_send v mode s =
     (let s = s\<lparr>sent := sent s @ [(v, mode)],
                 held := held s @ [(display_control s, display_mode s)]\<rparr>;
          s = pin_write (rs_pin s) (ucast mode) s;
          s = lcd_write_data (drop_bit 4 v) s
      in lcd_write_data v s)"

definition lcd_command :: "u8 \<Rightarrow> lcd_state \<Rightarrow> lcd_state" where
  "lcd_command cmd s = lcd_send cmd 0 s"

definition lcd_write :: "u8 \<Rightarrow> lcd_state \<Rightarrow> lcd_state" where
  "lcd_write v s = lcd_send v 1 s"

subsection \<open>Feature API (lines 51 to 285)\<close>

definition lcd_display_off :: "lcd_state \<Rightarrow> lcd_state" where
  "lcd_display_off s =
     (let s = s\<lparr>display_control := display_control s AND NOT LCD_DISPLAYON\<rparr>
      in lcd_command (LCD_DISPLAYCONTROL OR display_control s) s)"

definition lcd_display_on :: "lcd_state \<Rightarrow> lcd_state" where
  "lcd_display_on s =
     (let s = s\<lparr>display_control := display_control s OR LCD_DISPLAYON\<rparr>
      in lcd_command (LCD_DISPLAYCONTROL OR display_control s) s)"

definition lcd_clear :: "lcd_state \<Rightarrow> lcd_state" where
  "lcd_clear s = (let s = lcd_command LCD_CLEARDISPLAY s in delay_ms 2 s)"

definition lcd_home :: "lcd_state \<Rightarrow> lcd_state" where
  "lcd_home s = (let s = lcd_command LCD_RETURNHOME s in delay_ms 2 s)"

definition lcd_shift_left :: "lcd_state \<Rightarrow> lcd_state" where
  "lcd_shift_left s = lcd_command (LCD_CURSORSHIFT OR LCD_DISPLAYMOVE OR LCD_MOVELEFT) s"

definition lcd_shift_right :: "lcd_state \<Rightarrow> lcd_state" where
  "lcd_shift_right s = lcd_command (LCD_CURSORSHIFT OR LCD_DISPLAYMOVE OR LCD_MOVERIGHT) s"

definition lcd_cursor_on :: "lcd_state \<Rightarrow> lcd_state" where
  "lcd_cursor_on s =
     (let s = s\<lparr>display_control := display_control s OR LCD_CURSORON\<rparr>
      in lcd_command (LCD_DISPLAYCONTROL OR display_control s) s)"

definition lcd_cursor_off :: "lcd_state \<Rightarrow> lcd_state" where
  "lcd_cursor_off s =
     (let s = s\<lparr>display_control := display_control s AND NOT LCD_CURSORON\<rparr>
      in lcd_command (LCD_DISPLAYCONTROL OR display_control s) s)"

definition lcd_blink_on :: "lcd_state \<Rightarrow> lcd_state" where
  "lcd_blink_on s =
     (let s = s\<lparr>display_control := display_control s OR LCD_BLINKON\<rparr>
      in lcd_command (LCD_DISPLAYCONTROL OR display_control s) s)"

definition lcd_blink_off :: "lcd_state \<Rightarrow> lcd_state" where
  "lcd_blink_off s =
     (let s = s\<lparr>display_control := display_control s AND NOT LCD_BLINKON\<rparr>
      in lcd_command (LCD_DISPLAYCONTROL OR display_control s) s)"

definition lcd_autoscroll_on :: "lcd_state \<Rightarrow> lcd_state" where
  "lcd_autoscroll_on s =
     (let s = s\<lparr>display_mode := display_mode s OR LCD_ENTRYSHIFTINCREMENT\<rparr>
      in lcd_command (LCD_ENTRYMODESET OR display_mode s) s)"

definition lcd_autoscroll_off :: "lcd_state \<Rightarrow> lcd_state" where
  "lcd_autoscroll_off s =
     (let s = s\<lparr>display_mode := display_mode s AND NOT LCD_ENTRYSHIFTINCREMENT\<rparr>
      in lcd_command (LCD_ENTRYMODESET OR display_mode s) s)"

definition lcd_right_to_left :: "lcd_state \<Rightarrow> lcd_state" where
  "lcd_right_to_left s =
     (let s = s\<lparr>display_mode := display_mode s AND NOT LCD_ENTRYLEFT\<rparr>
      in lcd_command (LCD_ENTRYMODESET OR display_mode s) s)"

definition lcd_left_to_right :: "lcd_state \<Rightarrow> lcd_state" where
  "lcd_left_to_right s =
     (let s = s\<lparr>display_mode := display_mode s OR LCD_ENTRYLEFT\<rparr>
      in lcd_command (LCD_ENTRYMODESET OR display_mode s) s)"

definition lcd_init :: "u32 \<Rightarrow> u32 \<Rightarrow> u32 \<Rightarrow> u32 \<Rightarrow> u32 \<Rightarrow> u32 \<Rightarrow> lcd_state \<Rightarrow> lcd_state" where
  "lcd_init rs en dat4 dat5 dat6 dat7 s =
     (let s = s\<lparr>rs_pin := rs\<rparr>;
          s = s\<lparr>en_pin := en\<rparr>;
          s = s\<lparr>dat4_pin := dat4\<rparr>;
          s = s\<lparr>dat5_pin := dat5\<rparr>;
          s = s\<lparr>dat6_pin := dat6\<rparr>;
          s = s\<lparr>dat7_pin := dat7\<rparr>;
          s = s\<lparr>display_function := LCD_4BITMODE OR LCD_2LINE OR LCD_5x8DOTS\<rparr>;
          s = delay_ms 50 s;
          s = pin_write (rs_pin s) 0 s;
          s = lcd_write_data 0x03 s;
          s = delay_ms 5 s;
          s = lcd_write_data 0x03 s;
          s = delay_ms 5 s;
          s = lcd_write_data 0x03 s;
          s = delay_us 150 s;
          s = lcd_write_data 0x02 s;
          s = lcd_command (LCD_FUNCTIONSET OR display_function s) s;
          s = s\<lparr>display_control := LCD_DISPLAYON OR LCD_CURSOROFF OR LCD_BLINKOFF\<rparr>;
          s = lcd_display_on s;
          s = lcd_clear s;
          s = s\<lparr>display_mode := LCD_ENTRYLEFT OR LCD_ENTRYSHIFTDECREMENT\<rparr>
      in lcd_command (LCD_ENTRYMODESET OR display_mode s) s)"

text \<open>
  \<open>lcd_set_cursor\<close>, with the macro \<open>NUM_LINES\<close> as the parameter \<open>num_lines\<close>.
  \<open>max_lines\<close> is \<open>sizeof(row_offsets) / sizeof(*row_offsets)\<close>, of type \<open>size_t\<close>. The
  comparison \<open>row >= NUM_LINES\<close> is one of \<open>int\<close>s, and both assignments to \<open>row\<close> convert
  to \<open>uint8_t\<close>. The argument of \<open>lcd_command\<close> is computed on \<open>int\<close> (here 32 bits, as on
  the nRF5 target) and converted to \<open>uint8_t\<close> at the call. A read outside \<open>row_offsets\<close> has
  no defined result: the model returns \<open>None\<close> there.
\<close>

definition lcd_set_cursor_lines :: "int \<Rightarrow> u16 \<Rightarrow> u8 \<Rightarrow> lcd_state \<Rightarrow> lcd_state option" where
  "lcd_set_cursor_lines num_lines col row s =
     (let max_lines = length row_offsets;
          row = (if unat row \<ge> max_lines then of_nat (max_lines - 1) else row);
          row = (if uint row \<ge> num_lines then word_of_int (num_lines - 1) else row)
      in case row_offsets_at (unat row) of
           None \<Rightarrow> None
         | Some off \<Rightarrow>
             Some (lcd_command
               (ucast ((ucast LCD_SETDDRAMADDR :: u32) OR (ucast col + ucast off))) s))"

definition lcd_set_cursor :: "u16 \<Rightarrow> u8 \<Rightarrow> lcd_state \<Rightarrow> lcd_state option" where
  "lcd_set_cursor col row s = lcd_set_cursor_lines NUM_LINES col row s"

definition lcd_write_char :: "u8 \<Rightarrow> lcd_state \<Rightarrow> lcd_state" where
  "lcd_write_char data s = lcd_write data s"

text \<open>
  \<open>lcd_write_string\<close>: \<open>str\<close> is the memory from the pointer to the end of its object.
  The loop reads \<open>str[i]\<close> with a \<open>uint32_t i\<close> that wraps around; a read past the end of
  the object has no defined result (\<open>None\<close>). \<open>char\<close> converts to the \<open>uint8_t\<close> of
  \<open>lcd_write\<close> with the same bits, so characters are bytes here.
\<close>

partial_function (option) lcd_write_string_from ::
    "u32 \<Rightarrow> u8 list \<Rightarrow> lcd_state \<Rightarrow> lcd_state option" where
  "lcd_write_string_from i str s =
     (if unat i < length str
      then (if str ! unat i = 0 then Some s
            else lcd_write_string_from (i + 1) str (lcd_write_char (str ! unat i) s))
      else None)"

declare lcd_write_string_from.simps [code]

definition lcd_write_string :: "u8 list \<Rightarrow> lcd_state \<Rightarrow> lcd_state option" where
  "lcd_write_string str s = lcd_write_string_from 0 str s"

text \<open>
  What \<open>sprintf(str, "%d", num)\<close> writes before the terminator: \<open>%d\<close> reads its argument
  as an \<open>int\<close> (32 bits on the target), so the \<open>uint32_t\<close> is printed as a signed decimal.
\<close>

fun dec_digits :: "nat \<Rightarrow> u8 list" where
  "dec_digits n =
     (if n < 10 then [0x30 + of_nat n]
      else dec_digits (n div 10) @ [0x30 + of_nat (n mod 10)])"

declare dec_digits.simps [simp del]

definition sprintf_d :: "u32 \<Rightarrow> u8 list" where
  "sprintf_d num =
     (if sint num < 0 then 0x2D # dec_digits (nat (- sint num))
      else dec_digits (nat (sint num)))"

text \<open>
  \<open>lcd_write_int\<close>: the text and its terminator go into \<open>char str[10]\<close>; \<open>sprintf\<close> writing
  more than 10 bytes has no defined result (\<open>None\<close>).
\<close>

definition lcd_write_int :: "u32 \<Rightarrow> lcd_state \<Rightarrow> lcd_state option" where
  "lcd_write_int num s =
     (let str = sprintf_d num
      in if length str + 1 \<le> 10 then lcd_write_string (str @ [0]) s else None)"

text \<open>
  \<open>lcd_write_float\<close>: the conversion of a \<open>float\<close> by \<open>"%.4f"\<close> is the C library's and is
  not modelled; the parameter \<open>formatted\<close> is the text that \<open>sprintf\<close> writes for \<open>num\<close>,
  without its terminator.
\<close>

definition lcd_write_float :: "u8 list \<Rightarrow> lcd_state \<Rightarrow> lcd_state option" where
  "lcd_write_float formatted s =
     (if length formatted + 1 \<le> 10 then lcd_write_string (formatted @ [0]) s else None)"

subsection \<open>The public operations as calls\<close>

datatype api_call =
    Init u32 u32 u32 u32 u32 u32
  | DisplayOff | DisplayOn | Clear | Home | ShiftLeft | ShiftRight
  | CursorOn | CursorOff | BlinkOn | BlinkOff | AutoscrollOn | AutoscrollOff
  | RightToLeft | LeftToRight
  | SetCursor u16 u8
  | WriteChar u8
  | WriteString "u8 list"
  | WriteInt u32
  | WriteFloat "u8 list"

fun exec :: "api_call \<Rightarrow> lcd_state \<Rightarrow> lcd_state option" where
  "exec (Init rs en dat4 dat5 dat6 dat7) s = Some (lcd_init rs en dat4 dat5 dat6 dat7 s)"
| "exec DisplayOff s = Some (lcd_display_off s)"
| "exec DisplayOn s = Some (lcd_display_on s)"
| "exec Clear s = Some (lcd_clear s)"
| "exec Home s = Some (lcd_home s)"
| "exec ShiftLeft s = Some (lcd_shift_left s)"
| "exec ShiftRight s = Some (lcd_shift_right s)"
| "exec CursorOn s = Some (lcd_cursor_on s)"
| "exec CursorOff s = Some (lcd_cursor_off s)"
| "exec BlinkOn s = Some (lcd_blink_on s)"
| "exec BlinkOff s = Some (lcd_blink_off s)"
| "exec AutoscrollOn s = Some (lcd_autoscroll_on s)"
| "exec AutoscrollOff s = Some (lcd_autoscroll_off s)"
| "exec RightToLeft s = Some (lcd_right_to_left s)"
| "exec LeftToRight s = Some (lcd_left_to_right s)"
| "exec (SetCursor col row) s = lcd_set_cursor col row s"
| "exec (WriteChar c) s = Some (lcd_write_char c s)"
| "exec (WriteString str) s = lcd_write_string str s"
| "exec (WriteInt num) s = lcd_write_int num s"
| "exec (WriteFloat formatted) s = lcd_write_float formatted s"

text \<open>A sequence of calls, one after the other; it stops where a call has no defined result.\<close>

fun run :: "api_call list \<Rightarrow> lcd_state \<Rightarrow> lcd_state option" where
  "run [] s = Some s"
| "run (c # cs) s = (case exec c s of None \<Rightarrow> None | Some s' \<Rightarrow> run cs s')"

text \<open>
  The kinds of calls: \<open>lcd_init\<close>; the eight operations named \<open>_on\<close> and \<open>_off\<close>; the
  two operations that set the text direction.
\<close>

fun is_init :: "api_call \<Rightarrow> bool" where
  "is_init (Init rs en dat4 dat5 dat6 dat7) = True"
| "is_init c = False"

fun is_on_off_toggle :: "api_call \<Rightarrow> bool" where
  "is_on_off_toggle DisplayOff = True"
| "is_on_off_toggle DisplayOn = True"
| "is_on_off_toggle CursorOn = True"
| "is_on_off_toggle CursorOff = True"
| "is_on_off_toggle BlinkOn = True"
| "is_on_off_toggle BlinkOff = True"
| "is_on_off_toggle AutoscrollOn = True"
| "is_on_off_toggle AutoscrollOff = True"
| "is_on_off_toggle c = False"

fun is_direction_toggle :: "api_call \<Rightarrow> bool" where
  "is_direction_toggle RightToLeft = True"
| "is_direction_toggle LeftToRight = True"
| "is_direction_toggle c = False"

subsection \<open>What a recording of the pins shows\<close>

text \<open>
  The events of one nibble transmission on the pins of \<open>s\<close>: data line \<open>k\<close> carries bit \<open>k\<close>
  of the nibble \<open>n\<close>, then the enable line is pulsed.
\<close>

definition level :: "bool \<Rightarrow> u32" where
  "level b = (if b then 1 else 0)"

definition pulse_events :: "lcd_state \<Rightarrow> event list" where
  "pulse_events s =
     [PinWrite (en_pin s) 0, DelayUs 1, PinWrite (en_pin s) 1, DelayUs 1,
      PinWrite (en_pin s) 0, DelayUs 100]"

definition nibble_events :: "lcd_state \<Rightarrow> u8 \<Rightarrow> event list" where
  "nibble_events s n =
     [PinWrite (dat4_pin s) (level (bit n 0)), PinWrite (dat5_pin s) (level (bit n 1)),
      PinWrite (dat6_pin s) (level (bit n 2)), PinWrite (dat7_pin s) (level (bit n 3))]
     @ pulse_events s"

text \<open>The events of one byte transfer: register select, high nibble, low nibble.\<close>

definition send_events :: "lcd_state \<Rightarrow> u8 \<Rightarrow> u8 \<Rightarrow> event list" where
  "send_events s v mode =
     PinWrite (rs_pin s) (ucast mode)
       # nibble_events s (drop_bit 4 v AND 0xF) @ nibble_events s (v AND 0xF)"

text \<open>The time a wait asks for, in microseconds.\<close>

fun wait_us :: "event \<Rightarrow> nat" where
  "wait_us (DelayUs t) = unat t"
| "wait_us (DelayMs t) = 1000 * unat t"
| "wait_us (PinWrite p v) = 0"

text \<open>The level last written to pin \<open>p\<close> in a recording, if any.\<close>

fun pin_level :: "u32 \<Rightarrow> event list \<Rightarrow> u32 option" where
  "pin_level p [] = None"
| "pin_level p (e # es) =
     (case pin_level p es of
        Some v \<Rightarrow> Some v
      | None \<Rightarrow> (case e of PinWrite q v \<Rightarrow> if q = p then Some v else None | _ \<Rightarrow> None))"

text \<open>
  Reading the recording of \<open>lcd_send\<close> calls as the controller does: a byte sent with
  register select 0 is a Display Control command when its bits 7 to 3 are 00001 (its payload
  is bits 2 to 0), and an Entry Mode Set command when its bits 7 to 2 are 000001 (its payload
  is bits 1 to 0).
\<close>

definition is_display_control :: "u8 \<times> u8 \<Rightarrow> bool" where
  "is_display_control x = (snd x = 0 \<and> fst x AND 0xF8 = 0x08)"

definition is_entry_mode_set :: "u8 \<times> u8 \<Rightarrow> bool" where
  "is_entry_mode_set x = (snd x = 0 \<and> fst x AND 0xFC = 0x04)"

definition last_display_control :: "(u8 \<times> u8) list \<Rightarrow> u8 option" where
  "last_display_control log =
     (let cmds = filter is_display_control log
      in if cmds = [] then None else Some (fst (last cmds) AND 0x07))"

definition last_entry_mode :: "(u8 \<times> u8) list \<Rightarrow> u8 option" where
  "last_entry_mode log =
     (let cmds = filter is_entry_mode_set log
      in if cmds = [] then None else Some (fst (last cmds) AND 0x03))"

text \<open>
  \<open>synced s\<close>: the two state bytes equal the payloads of the last Display Control and of
  the last Entry Mode Set command sent. \<open>flags_only s\<close>: the two state bytes hold nothing
  above their flag bits (three for \<open>display_control\<close>, two for \<open>display_mode\<close>).
\<close>

definition synced :: "lcd_state \<Rightarrow> bool" where
  "synced s =
     (last_display_control (sent s) = Some (display_control s) \<and>
      last_entry_mode (sent s) = Some (display_mode s))"

definition flags_only :: "lcd_state \<Rightarrow> bool" where
  "flags_only s = (display_control s AND 0xF8 = 0 \<and> display_mode s AND 0xFC = 0)"

text \<open>The invariant that every public operation keeps and \<open>lcd_init\<close> sets up.\<close>

definition driver_inv :: "lcd_state \<Rightarrow> bool" where
  "driver_inv s = (flags_only s \<and> synced s)"

subsection \<open>What the controller reads from the pins\<close>

text \<open>
  The six lines as the controller sees them, and the nibbles it has latched, each with the
  level of register select at that moment. A pin is high after a write of a non-zero value
  and low after a write of zero. The controller latches the four data lines on the falling
  edge of the enable line.
\<close>

record bus =
  rs_line :: bool
  en_line :: bool
  d4_line :: bool
  d5_line :: bool
  d6_line :: bool
  d7_line :: bool
  latched :: "(bool \<times> u8) list"

definition idle_bus :: bus where
  "idle_bus =
     \<lparr>rs_line = False, en_line = False, d4_line = False, d5_line = False,
      d6_line = False, d7_line = False, latched = []\<rparr>"

definition nibble_on :: "bus \<Rightarrow> u8" where
  "nibble_on b =
     (if d4_line b then 1 else 0) OR (if d5_line b then 2 else 0) OR
     (if d6_line b then 4 else 0) OR (if d7_line b then 8 else 0)"

text \<open>One recorded event, seen on the lines wired to the pins of \<open>s\<close>.\<close>

fun bus_step :: "lcd_state \<Rightarrow> bus \<Rightarrow> event \<Rightarrow> bus" where
  "bus_step s b (PinWrite p v) =
     (let hi = (v \<noteq> 0);
          b = (if p = en_pin s \<and> en_line b \<and> \<not> hi
               then b\<lparr>latched := latched b @ [(rs_line b, nibble_on b)]\<rparr> else b);
          b = (if p = rs_pin s then b\<lparr>rs_line := hi\<rparr> else b);
          b = (if p = en_pin s then b\<lparr>en_line := hi\<rparr> else b);
          b = (if p = dat4_pin s then b\<lparr>d4_line := hi\<rparr> else b);
          b = (if p = dat5_pin s then b\<lparr>d5_line := hi\<rparr> else b);
          b = (if p = dat6_pin s then b\<lparr>d6_line := hi\<rparr> else b)
      in (if p = dat7_pin s then b\<lparr>d7_line := hi\<rparr> else b))"
| "bus_step s b (DelayUs t) = b"
| "bus_step s b (DelayMs t) = b"

definition bus_run :: "lcd_state \<Rightarrow> event list \<Rightarrow> bus" where
  "bus_run s es = foldl (bus_step s) idle_bus es"

definition pins_distinct :: "lcd_state \<Rightarrow> bool" where
  "pins_distinct s =
     distinct [rs_pin s, en_pin s, dat4_pin s, dat5_pin s, dat6_pin s, dat7_pin s]"

text \<open>
  In 4-bit mode the controller takes the nibbles in pairs, high nibble first; the byte is
  for the data register when register select is high and a command otherwise.
\<close>

fun pair_up :: "(bool \<times> u8) list \<Rightarrow> (u8 \<times> u8) list" where
  "pair_up ((r, h) # (r', l) # ns) = (push_bit 4 h OR l, if r then 1 else 0) # pair_up ns"
| "pair_up ns = []"

text \<open>
  The bytes that the controller reads from a recording that begins with \<open>lcd_init\<close>: the
  first four nibbles are the single transfers 3, 3, 3, 2 that bring it to 4-bit mode, and
  from then on it reads pairs.
\<close>

definition controller_bytes :: "lcd_state \<Rightarrow> event list \<Rightarrow> (u8 \<times> u8) list" where
  "controller_bytes s es = pair_up (drop 4 (latched (bus_run s es)))"

text \<open>The two nibbles of one byte transfer, and a byte as the controller reads it.\<close>

definition nibbles_of :: "u8 \<times> u8 \<Rightarrow> (bool \<times> u8) list" where
  "nibbles_of x = [(snd x \<noteq> 0, drop_bit 4 (fst x) AND 0xF), (snd x \<noteq> 0, fst x AND 0xF)]"

definition as_read :: "u8 \<times> u8 \<Rightarrow> u8 \<times> u8" where
  "as_read x = (fst x, if snd x \<noteq> 0 then 1 else 0)"

text \<open>
  The relation between the recordings that the proofs maintain from the \<open>lcd_init\<close> that
  started at position \<open>t0\<close> of \<open>trace\<close> and \<open>l0\<close> of \<open>sent\<close>: the enable line is low, and
  the nibbles latched since are the four of \<open>lcd_init\<close> followed by the nibbles of the
  bytes handed to \<open>lcd_send\<close> since; both command kinds have been sent since.
\<close>

definition bus_ok :: "nat \<Rightarrow> nat \<Rightarrow> lcd_state \<Rightarrow> bool" where
  "bus_ok t0 l0 s =
     (pins_distinct s \<and> t0 \<le> length (trace s) \<and> l0 \<le> length (sent s) \<and>
      \<not> en_line (bus_run s (drop t0 (trace s))) \<and>
      latched (bus_run s (drop t0 (trace s))) =
        [(False, 3), (False, 3), (False, 3), (False, 2)] @
        concat (map nibbles_of (drop l0 (sent s))) \<and>
      filter is_display_control (drop l0 (sent s)) \<noteq> [] \<and>
      filter is_entry_mode_set (drop l0 (sent s)) \<noteq> [])"

text \<open>The three state bytes and the six pin identifiers of a state.\<close>

definition driver_fields :: "lcd_state \<Rightarrow> (u8 \<times> u8 \<times> u8) \<times> (u32 \<times> u32 \<times> u32 \<times> u32 \<times> u32 \<times> u32)" where
  "driver_fields s =
     ((display_function s, display_control s, display_mode s),
      (rs_pin s, en_pin s, dat4_pin s, dat5_pin s, dat6_pin s, dat7_pin s))"

text \<open>A wiring with six different pins, for evaluating the driver on concrete inputs.\<close>

definition wired_state :: lcd_state where
  "wired_state =
     power_on_state\<lparr>rs_pin := 11, en_pin := 12, dat4_pin := 4, dat5_pin := 5,
       dat6_pin := 6, dat7_pin := 7\<rparr>"

text \<open>The state after initialising that wiring from power-on.\<close>

definition ready_state :: lcd_state where
  "ready_state = lcd_init 11 12 4 5 6 7 power_on_state"

section \<open>Properties\<close>

subsection \<open>Helper lemmas\<close>

lemma and_mask_bits:
  "(d :: u8) AND 1 \<noteq> 0 \<longleftrightarrow> bit d 0"
  "(d :: u8) AND 2 \<noteq> 0 \<longleftrightarrow> bit d 1"
  "(d :: u8) AND 4 \<noteq> 0 \<longleftrightarrow> bit d 2"
  "(d :: u8) AND 8 \<noteq> 0 \<longleftrightarrow> bit d 3"
proof -
  have "(d AND 1 \<noteq> 0) = (d AND push_bit 0 1 \<noteq> 0)" by simp
  also have "\<dots> = bit d 0" by (simp only: and_exp_eq_0_iff_not_bit push_bit_of_1) simp
  finally show "d AND 1 \<noteq> 0 \<longleftrightarrow> bit d 0" .
  have "(d AND 2 \<noteq> 0) = (d AND 2 ^ 1 \<noteq> 0)" by simp
  also have "\<dots> = bit d 1" by (simp only: and_exp_eq_0_iff_not_bit) simp
  finally show "d AND 2 \<noteq> 0 \<longleftrightarrow> bit d 1" .
  have "(d AND 4 \<noteq> 0) = (d AND 2 ^ 2 \<noteq> 0)" by simp
  also have "\<dots> = bit d 2" by (simp only: and_exp_eq_0_iff_not_bit) simp
  finally show "d AND 4 \<noteq> 0 \<longleftrightarrow> bit d 2" .
  have "(d AND 8 \<noteq> 0) = (d AND 2 ^ 3 \<noteq> 0)" by simp
  also have "\<dots> = bit d 3" by (simp only: and_exp_eq_0_iff_not_bit) simp
  finally show "d AND 8 \<noteq> 0 \<longleftrightarrow> bit d 3" .
qed

lemma trace_enable_pulse: "trace (enable_pulse s) = trace s @ pulse_events s"
  by (simp add: enable_pulse_def pulse_events_def pin_write_def delay_us_def)

lemma trace_lcd_write_data: "trace (lcd_write_data d s) = trace s @ nibble_events s (d AND 0xF)"
  by (simp add: lcd_write_data_def nibble_events_def Let_def trace_enable_pulse and_mask_bits
      pin_write_def level_def pulse_events_def bit_simps)

lemma pins_lcd_write_data [simp]:
  "rs_pin (lcd_write_data d s) = rs_pin s" "en_pin (lcd_write_data d s) = en_pin s"
  "dat4_pin (lcd_write_data d s) = dat4_pin s" "dat5_pin (lcd_write_data d s) = dat5_pin s"
  "dat6_pin (lcd_write_data d s) = dat6_pin s" "dat7_pin (lcd_write_data d s) = dat7_pin s"
  by (simp_all add: lcd_write_data_def Let_def enable_pulse_def pin_write_def delay_us_def)

lemma bytes_lcd_write_data [simp]:
  "display_function (lcd_write_data d s) = display_function s"
  "display_control (lcd_write_data d s) = display_control s"
  "display_mode (lcd_write_data d s) = display_mode s"
  "sent (lcd_write_data d s) = sent s"
  "held (lcd_write_data d s) = held s"
  by (simp_all add: lcd_write_data_def Let_def enable_pulse_def pin_write_def delay_us_def)

lemma nibble_events_cong:
  "en_pin s' = en_pin s \<Longrightarrow> dat4_pin s' = dat4_pin s \<Longrightarrow> dat5_pin s' = dat5_pin s \<Longrightarrow>
   dat6_pin s' = dat6_pin s \<Longrightarrow> dat7_pin s' = dat7_pin s \<Longrightarrow>
   nibble_events s' n = nibble_events s n"
  by (simp add: nibble_events_def pulse_events_def)

lemma trace_lcd_send: "trace (lcd_send v m s) = trace s @ send_events s v m"
  by (simp add: lcd_send_def Let_def trace_lcd_write_data send_events_def pin_write_def
      nibble_events_def pulse_events_def)

lemma pins_lcd_send [simp]:
  "rs_pin (lcd_send v m s) = rs_pin s" "en_pin (lcd_send v m s) = en_pin s"
  "dat4_pin (lcd_send v m s) = dat4_pin s" "dat5_pin (lcd_send v m s) = dat5_pin s"
  "dat6_pin (lcd_send v m s) = dat6_pin s" "dat7_pin (lcd_send v m s) = dat7_pin s"
  by (simp_all add: lcd_send_def Let_def pin_write_def)

lemma bytes_lcd_send [simp]:
  "display_function (lcd_send v m s) = display_function s"
  "display_control (lcd_send v m s) = display_control s"
  "display_mode (lcd_send v m s) = display_mode s"
  "sent (lcd_send v m s) = sent s @ [(v, m)]"
  "held (lcd_send v m s) = held s @ [(display_control s, display_mode s)]"
  by (simp_all add: lcd_send_def Let_def pin_write_def)

lemma trace_lcd_command: "trace (lcd_command c s) = trace s @ send_events s c 0"
  by (simp add: lcd_command_def trace_lcd_send)

lemma pins_lcd_command [simp]:
  "rs_pin (lcd_command c s) = rs_pin s" "en_pin (lcd_command c s) = en_pin s"
  "dat4_pin (lcd_command c s) = dat4_pin s" "dat5_pin (lcd_command c s) = dat5_pin s"
  "dat6_pin (lcd_command c s) = dat6_pin s" "dat7_pin (lcd_command c s) = dat7_pin s"
  by (simp_all add: lcd_command_def)

lemma bytes_lcd_command [simp]:
  "display_function (lcd_command c s) = display_function s"
  "display_control (lcd_command c s) = display_control s"
  "display_mode (lcd_command c s) = display_mode s"
  "sent (lcd_command c s) = sent s @ [(c, 0)]"
  "held (lcd_command c s) = held s @ [(display_control s, display_mode s)]"
  by (simp_all add: lcd_command_def)

lemma pins_api [simp]:
  "rs_pin (lcd_display_off s) = rs_pin s" "en_pin (lcd_display_off s) = en_pin s"
  "dat4_pin (lcd_display_off s) = dat4_pin s" "dat5_pin (lcd_display_off s) = dat5_pin s"
  "dat6_pin (lcd_display_off s) = dat6_pin s" "dat7_pin (lcd_display_off s) = dat7_pin s"
  "display_function (lcd_display_off s) = display_function s"
  "rs_pin (lcd_display_on s) = rs_pin s" "en_pin (lcd_display_on s) = en_pin s"
  "dat4_pin (lcd_display_on s) = dat4_pin s" "dat5_pin (lcd_display_on s) = dat5_pin s"
  "dat6_pin (lcd_display_on s) = dat6_pin s" "dat7_pin (lcd_display_on s) = dat7_pin s"
  "display_function (lcd_display_on s) = display_function s"
  "rs_pin (lcd_clear s) = rs_pin s" "en_pin (lcd_clear s) = en_pin s"
  "dat4_pin (lcd_clear s) = dat4_pin s" "dat5_pin (lcd_clear s) = dat5_pin s"
  "dat6_pin (lcd_clear s) = dat6_pin s" "dat7_pin (lcd_clear s) = dat7_pin s"
  "display_function (lcd_clear s) = display_function s"
  "rs_pin (lcd_home s) = rs_pin s" "en_pin (lcd_home s) = en_pin s"
  "dat4_pin (lcd_home s) = dat4_pin s" "dat5_pin (lcd_home s) = dat5_pin s"
  "dat6_pin (lcd_home s) = dat6_pin s" "dat7_pin (lcd_home s) = dat7_pin s"
  "display_function (lcd_home s) = display_function s"
  "rs_pin (lcd_shift_left s) = rs_pin s" "en_pin (lcd_shift_left s) = en_pin s"
  "dat4_pin (lcd_shift_left s) = dat4_pin s" "dat5_pin (lcd_shift_left s) = dat5_pin s"
  "dat6_pin (lcd_shift_left s) = dat6_pin s" "dat7_pin (lcd_shift_left s) = dat7_pin s"
  "display_function (lcd_shift_left s) = display_function s"
  "rs_pin (lcd_shift_right s) = rs_pin s" "en_pin (lcd_shift_right s) = en_pin s"
  "dat4_pin (lcd_shift_right s) = dat4_pin s" "dat5_pin (lcd_shift_right s) = dat5_pin s"
  "dat6_pin (lcd_shift_right s) = dat6_pin s" "dat7_pin (lcd_shift_right s) = dat7_pin s"
  "display_function (lcd_shift_right s) = display_function s"
  "rs_pin (lcd_cursor_on s) = rs_pin s" "en_pin (lcd_cursor_on s) = en_pin s"
  "dat4_pin (lcd_cursor_on s) = dat4_pin s" "dat5_pin (lcd_cursor_on s) = dat5_pin s"
  "dat6_pin (lcd_cursor_on s) = dat6_pin s" "dat7_pin (lcd_cursor_on s) = dat7_pin s"
  "display_function (lcd_cursor_on s) = display_function s"
  "rs_pin (lcd_cursor_off s) = rs_pin s" "en_pin (lcd_cursor_off s) = en_pin s"
  "dat4_pin (lcd_cursor_off s) = dat4_pin s" "dat5_pin (lcd_cursor_off s) = dat5_pin s"
  "dat6_pin (lcd_cursor_off s) = dat6_pin s" "dat7_pin (lcd_cursor_off s) = dat7_pin s"
  "display_function (lcd_cursor_off s) = display_function s"
  "rs_pin (lcd_blink_on s) = rs_pin s" "en_pin (lcd_blink_on s) = en_pin s"
  "dat4_pin (lcd_blink_on s) = dat4_pin s" "dat5_pin (lcd_blink_on s) = dat5_pin s"
  "dat6_pin (lcd_blink_on s) = dat6_pin s" "dat7_pin (lcd_blink_on s) = dat7_pin s"
  "display_function (lcd_blink_on s) = display_function s"
  "rs_pin (lcd_blink_off s) = rs_pin s" "en_pin (lcd_blink_off s) = en_pin s"
  "dat4_pin (lcd_blink_off s) = dat4_pin s" "dat5_pin (lcd_blink_off s) = dat5_pin s"
  "dat6_pin (lcd_blink_off s) = dat6_pin s" "dat7_pin (lcd_blink_off s) = dat7_pin s"
  "display_function (lcd_blink_off s) = display_function s"
  "rs_pin (lcd_autoscroll_on s) = rs_pin s" "en_pin (lcd_autoscroll_on s) = en_pin s"
  "dat4_pin (lcd_autoscroll_on s) = dat4_pin s" "dat5_pin (lcd_autoscroll_on s) = dat5_pin s"
  "dat6_pin (lcd_autoscroll_on s) = dat6_pin s" "dat7_pin (lcd_autoscroll_on s) = dat7_pin s"
  "display_function (lcd_autoscroll_on s) = display_function s"
  "rs_pin (lcd_autoscroll_off s) = rs_pin s" "en_pin (lcd_autoscroll_off s) = en_pin s"
  "dat4_pin (lcd_autoscroll_off s) = dat4_pin s" "dat5_pin (lcd_autoscroll_off s) = dat5_pin s"
  "dat6_pin (lcd_autoscroll_off s) = dat6_pin s" "dat7_pin (lcd_autoscroll_off s) = dat7_pin s"
  "display_function (lcd_autoscroll_off s) = display_function s"
  "rs_pin (lcd_right_to_left s) = rs_pin s" "en_pin (lcd_right_to_left s) = en_pin s"
  "dat4_pin (lcd_right_to_left s) = dat4_pin s" "dat5_pin (lcd_right_to_left s) = dat5_pin s"
  "dat6_pin (lcd_right_to_left s) = dat6_pin s" "dat7_pin (lcd_right_to_left s) = dat7_pin s"
  "display_function (lcd_right_to_left s) = display_function s"
  "rs_pin (lcd_left_to_right s) = rs_pin s" "en_pin (lcd_left_to_right s) = en_pin s"
  "dat4_pin (lcd_left_to_right s) = dat4_pin s" "dat5_pin (lcd_left_to_right s) = dat5_pin s"
  "dat6_pin (lcd_left_to_right s) = dat6_pin s" "dat7_pin (lcd_left_to_right s) = dat7_pin s"
  "display_function (lcd_left_to_right s) = display_function s"
  by (simp_all add: Let_def delay_ms_def
      lcd_display_off_def lcd_display_on_def lcd_clear_def lcd_home_def
      lcd_shift_left_def lcd_shift_right_def lcd_cursor_on_def lcd_cursor_off_def
      lcd_blink_on_def lcd_blink_off_def lcd_autoscroll_on_def lcd_autoscroll_off_def
      lcd_right_to_left_def lcd_left_to_right_def)

lemma pin_level_unwritten:
  "\<forall>v. PinWrite p v \<notin> set es \<Longrightarrow> pin_level p es = None"
  by (induction es) (auto split: event.splits)

lemma pin_level_held:
  assumes "\<forall>w. PinWrite p w \<notin> set es" and "0 < k"
  shows "pin_level p (take k (PinWrite p v # es)) = Some v"
proof -
  obtain j where k: "k = Suc j" using \<open>0 < k\<close> by (cases k) auto
  have "\<forall>w. PinWrite p w \<notin> set (take j es)"
    using assms(1) by (meson in_set_takeD)
  then have "pin_level p (take j es) = None" by (rule pin_level_unwritten)
  then show ?thesis by (simp add: k)
qed


subsection \<open>C3: the enable pulse\<close>

text \<open>
  C3. Every call of \<open>lcd_write_data\<close> first writes the four data pins (line \<open>k\<close> gets bit
  \<open>k\<close> of the argument) and then ends with the pulse: enable low, a wait of 1 us, enable
  high, a wait of 1 us, enable low, a wait of 100 us, in that order and with nothing after it.
  The waits asked for are at least 1 us, 1 us and 100 us.
\<close>

theorem lcd_write_data_ends_with_pulse:
  "trace (lcd_write_data d s) =
     trace s @
     [PinWrite (dat4_pin s) (level (bit d 0)), PinWrite (dat5_pin s) (level (bit d 1)),
      PinWrite (dat6_pin s) (level (bit d 2)), PinWrite (dat7_pin s) (level (bit d 3))] @
     [PinWrite (en_pin s) 0, DelayUs 1, PinWrite (en_pin s) 1, DelayUs 1,
      PinWrite (en_pin s) 0, DelayUs 100]
   \<and> 1 \<le> wait_us (DelayUs 1) \<and> 100 \<le> wait_us (DelayUs 100)"
  by (simp add: trace_lcd_write_data nibble_events_def pulse_events_def bit_simps)


subsection \<open>C1: a byte goes out as two nibbles\<close>

text \<open>
  C1. For every byte \<open>v\<close> and every mode \<open>m\<close> (so also for 0 and 1), \<open>lcd_send v m\<close> first
  writes \<open>m\<close> to the register-select pin and then makes exactly two nibble transmissions:
  the first shows \<open>(v >> 4) & 0xF\<close> on the four data pins, the second shows \<open>v & 0xF\<close>.
  Nothing else is emitted. When the register-select pin is none of the other five pins, the
  level last written to it is \<open>m\<close> after every event of the call.
\<close>

theorem lcd_send_two_nibbles:
  "trace (lcd_send v m s) =
     trace s @ [PinWrite (rs_pin s) (ucast m)] @
     nibble_events s (drop_bit 4 v AND 0xF) @ nibble_events s (v AND 0xF)
   \<and> (rs_pin s \<notin> {en_pin s, dat4_pin s, dat5_pin s, dat6_pin s, dat7_pin s} \<longrightarrow>
      (\<forall>k. 0 < k \<longrightarrow>
         pin_level (rs_pin s)
           (take k ([PinWrite (rs_pin s) (ucast m)] @
              nibble_events s (drop_bit 4 v AND 0xF) @ nibble_events s (v AND 0xF)))
         = Some (ucast m)))"
proof (intro conjI impI allI)
  show "trace (lcd_send v m s) =
     trace s @ [PinWrite (rs_pin s) (ucast m)] @
     nibble_events s (drop_bit 4 v AND 0xF) @ nibble_events s (v AND 0xF)"
    by (simp add: trace_lcd_send send_events_def)
next
  fix k :: nat
  assume distinct: "rs_pin s \<notin> {en_pin s, dat4_pin s, dat5_pin s, dat6_pin s, dat7_pin s}"
    and k: "0 < k"
  have "\<forall>w. PinWrite (rs_pin s) w \<notin>
      set (nibble_events s (drop_bit 4 v AND 0xF) @ nibble_events s (v AND 0xF))"
    using distinct by (auto simp: nibble_events_def pulse_events_def)
  from pin_level_held [OF this k]
  show "pin_level (rs_pin s)
      (take k ([PinWrite (rs_pin s) (ucast m)] @
         nibble_events s (drop_bit 4 v AND 0xF) @ nibble_events s (v AND 0xF)))
      = Some (ucast m)"
    by simp
qed

theorem lcd_send_two_nibbles_witness:
  "rs_pin wired_state \<notin> {en_pin wired_state, dat4_pin wired_state, dat5_pin wired_state,
      dat6_pin wired_state, dat7_pin wired_state}
   \<and> trace (lcd_send 0x48 1 wired_state) =
       [PinWrite 11 1,
        PinWrite 4 0, PinWrite 5 0, PinWrite 6 1, PinWrite 7 0,
        PinWrite 12 0, DelayUs 1, PinWrite 12 1, DelayUs 1, PinWrite 12 0, DelayUs 100,
        PinWrite 4 0, PinWrite 5 0, PinWrite 6 0, PinWrite 7 1,
        PinWrite 12 0, DelayUs 1, PinWrite 12 1, DelayUs 1, PinWrite 12 0, DelayUs 100]
   \<and> pin_level 11
       (take 21
         [PinWrite 11 1,
          PinWrite 4 0, PinWrite 5 0, PinWrite 6 1, PinWrite 7 0,
          PinWrite 12 0, DelayUs 1, PinWrite 12 1, DelayUs 1, PinWrite 12 0, DelayUs 100,
          PinWrite 4 0, PinWrite 5 0, PinWrite 6 0, PinWrite 7 1,
          PinWrite 12 0, DelayUs 1, PinWrite 12 1, DelayUs 1, PinWrite 12 0, DelayUs 100])
       = Some 1"
proof -
  have d: "rs_pin wired_state \<notin> {en_pin wired_state, dat4_pin wired_state,
      dat5_pin wired_state, dat6_pin wired_state, dat7_pin wired_state}"
    by (simp add: wired_state_def power_on_state_def)
  note send = lcd_send_two_nibbles [of "0x48" 1 wired_state]
  have t1: "trace (lcd_send 0x48 1 wired_state) =
      trace wired_state @ [PinWrite (rs_pin wired_state) (ucast (1 :: u8))] @
      nibble_events wired_state (drop_bit 4 0x48 AND 0xF) @
      nibble_events wired_state (0x48 AND 0xF)"
    by (rule send [THEN conjunct1])
  have t2: "pin_level (rs_pin wired_state)
      (take 21 ([PinWrite (rs_pin wired_state) (ucast (1 :: u8))] @
      nibble_events wired_state (drop_bit 4 0x48 AND 0xF) @
      nibble_events wired_state (0x48 AND 0xF))) = Some (ucast (1 :: u8))"
    by (rule send [THEN conjunct2, rule_format, OF d]) simp
  have t1': "trace (lcd_send 0x48 1 wired_state) =
       [PinWrite 11 1,
        PinWrite 4 0, PinWrite 5 0, PinWrite 6 1, PinWrite 7 0,
        PinWrite 12 0, DelayUs 1, PinWrite 12 1, DelayUs 1, PinWrite 12 0, DelayUs 100,
        PinWrite 4 0, PinWrite 5 0, PinWrite 6 0, PinWrite 7 1,
        PinWrite 12 0, DelayUs 1, PinWrite 12 1, DelayUs 1, PinWrite 12 0, DelayUs 100]"
    using t1 by (simp add: nibble_events_def pulse_events_def wired_state_def power_on_state_def
        level_def bit_simps drop_bit_eq_div)
  have t2': "pin_level 11
       (take 21
         [PinWrite 11 1,
          PinWrite 4 0, PinWrite 5 0, PinWrite 6 1, PinWrite 7 0,
          PinWrite 12 0, DelayUs 1, PinWrite 12 1, DelayUs 1, PinWrite 12 0, DelayUs 100,
          PinWrite 4 0, PinWrite 5 0, PinWrite 6 0, PinWrite 7 1,
          PinWrite 12 0, DelayUs 1, PinWrite 12 1, DelayUs 1, PinWrite 12 0, DelayUs 100])
       = Some 1"
    using t2 by (simp add: nibble_events_def pulse_events_def wired_state_def power_on_state_def
        level_def bit_simps drop_bit_eq_div)
  from d t1' t2' show ?thesis by (intro conjI)
qed


subsection \<open>C9: clear and home\<close>

lemma send_events_cong:
  "rs_pin s' = rs_pin s \<Longrightarrow> en_pin s' = en_pin s \<Longrightarrow> dat4_pin s' = dat4_pin s \<Longrightarrow>
   dat5_pin s' = dat5_pin s \<Longrightarrow> dat6_pin s' = dat6_pin s \<Longrightarrow> dat7_pin s' = dat7_pin s \<Longrightarrow>
   send_events s' v m = send_events s v m"
  by (simp add: send_events_def nibble_events_def pulse_events_def)

lemma trace_lcd_clear: "trace (lcd_clear s) = trace s @ send_events s 0x01 0 @ [DelayMs 2]"
  by (simp add: lcd_clear_def Let_def delay_ms_def trace_lcd_command LCD_CLEARDISPLAY_def)

text \<open>
  C9. \<open>lcd_clear\<close> emits the transfer of the command byte 0x01 (Clear Display, register
  select 0) and then one wait of 2 ms, and nothing else; \<open>lcd_home\<close> emits the transfer of
  the command byte 0x02 (Return Home) and then one wait of 2 ms, and nothing else. The wait
  asked for is at least 2000 us.
\<close>

theorem lcd_clear_home_settle:
  "trace (lcd_clear s) = trace s @ send_events s LCD_CLEARDISPLAY 0 @ [DelayMs 2]
   \<and> sent (lcd_clear s) = sent s @ [(0x01, 0)]
   \<and> trace (lcd_home s) = trace s @ send_events s LCD_RETURNHOME 0 @ [DelayMs 2]
   \<and> sent (lcd_home s) = sent s @ [(0x02, 0)]
   \<and> LCD_CLEARDISPLAY = 0x01 \<and> LCD_RETURNHOME = 0x02
   \<and> 2000 \<le> wait_us (DelayMs 2)"
  by (simp add: lcd_clear_def lcd_home_def Let_def delay_ms_def trace_lcd_command
      LCD_CLEARDISPLAY_def LCD_RETURNHOME_def)

subsection \<open>C2: the initialisation sequence\<close>

lemma trace_lcd_display_on:
  "trace (lcd_display_on s) = trace s @ send_events s (0x08 OR (display_control s OR 0x04)) 0"
  by (simp add: lcd_display_on_def Let_def trace_lcd_command lcd_consts
      send_events_def nibble_events_def pulse_events_def)

text \<open>
  C2. With \<open>s'\<close> the state after \<open>lcd_init rs en dat4 dat5 dat6 dat7\<close> (whose pins are the
  six arguments), the call emits exactly, in this order: a wait of 50 ms; register select
  low; the nibble 0x03 and a wait of 5 ms; the nibble 0x03 and a wait of 5 ms; the nibble
  0x03 and a wait of 150 us; the nibble 0x02; the command byte 0x28 (Function Set: 4-bit,
  2 lines, 5x8); the command byte 0x0C (Display Control with the display-on bit); the
  command byte 0x01 (Clear Display) with its wait of 2 ms; the command byte 0x06 (Entry Mode
  Set). The waits asked for are at least 50 ms, 4.1 ms, 4.1 ms and 100 us.
\<close>

theorem lcd_init_sequence:
  "(let s' = lcd_init rs en dat4 dat5 dat6 dat7 s in
     trace s' =
       trace s @ [DelayMs 50] @ [PinWrite rs 0] @
       nibble_events s' 0x03 @ [DelayMs 5] @
       nibble_events s' 0x03 @ [DelayMs 5] @
       nibble_events s' 0x03 @ [DelayUs 150] @
       nibble_events s' 0x02 @
       send_events s' 0x28 0 @
       send_events s' 0x0C 0 @
       send_events s' 0x01 0 @ [DelayMs 2] @
       send_events s' 0x06 0
     \<and> rs_pin s' = rs \<and> en_pin s' = en \<and> dat4_pin s' = dat4 \<and> dat5_pin s' = dat5
     \<and> dat6_pin s' = dat6 \<and> dat7_pin s' = dat7)
   \<and> 0x28 = LCD_FUNCTIONSET OR (LCD_4BITMODE OR LCD_2LINE OR LCD_5x8DOTS)
   \<and> 0x0C = LCD_DISPLAYCONTROL OR LCD_DISPLAYON
   \<and> 0x01 = LCD_CLEARDISPLAY
   \<and> 0x06 = LCD_ENTRYMODESET OR (LCD_ENTRYLEFT OR LCD_ENTRYSHIFTDECREMENT)
   \<and> 50000 \<le> wait_us (DelayMs 50) \<and> 4100 \<le> wait_us (DelayMs 5)
   \<and> 100 \<le> wait_us (DelayUs 150)"
proof -
  have bytes:
    "0x28 = LCD_FUNCTIONSET OR (LCD_4BITMODE OR LCD_2LINE OR LCD_5x8DOTS)"
    "0x0C = LCD_DISPLAYCONTROL OR LCD_DISPLAYON"
    "0x01 = LCD_CLEARDISPLAY"
    "0x06 = LCD_ENTRYMODESET OR (LCD_ENTRYLEFT OR LCD_ENTRYSHIFTDECREMENT)"
    by (simp_all add: lcd_consts)
  have waits: "50000 \<le> wait_us (DelayMs 50)" "4100 \<le> wait_us (DelayMs 5)"
    "100 \<le> wait_us (DelayUs 150)"
    by simp_all
  have pins: "rs_pin (lcd_init rs en dat4 dat5 dat6 dat7 s) = rs"
    "en_pin (lcd_init rs en dat4 dat5 dat6 dat7 s) = en"
    "dat4_pin (lcd_init rs en dat4 dat5 dat6 dat7 s) = dat4"
    "dat5_pin (lcd_init rs en dat4 dat5 dat6 dat7 s) = dat5"
    "dat6_pin (lcd_init rs en dat4 dat5 dat6 dat7 s) = dat6"
    "dat7_pin (lcd_init rs en dat4 dat5 dat6 dat7 s) = dat7"
    by (simp_all add: lcd_init_def Let_def lcd_display_on_def lcd_clear_def
        delay_ms_def delay_us_def pin_write_def)
  have tr: "trace (lcd_init rs en dat4 dat5 dat6 dat7 s) =
       trace s @ [DelayMs 50] @ [PinWrite rs 0] @
       nibble_events (lcd_init rs en dat4 dat5 dat6 dat7 s) 0x03 @ [DelayMs 5] @
       nibble_events (lcd_init rs en dat4 dat5 dat6 dat7 s) 0x03 @ [DelayMs 5] @
       nibble_events (lcd_init rs en dat4 dat5 dat6 dat7 s) 0x03 @ [DelayUs 150] @
       nibble_events (lcd_init rs en dat4 dat5 dat6 dat7 s) 0x02 @
       send_events (lcd_init rs en dat4 dat5 dat6 dat7 s) 0x28 0 @
       send_events (lcd_init rs en dat4 dat5 dat6 dat7 s) 0x0C 0 @
       send_events (lcd_init rs en dat4 dat5 dat6 dat7 s) 0x01 0 @ [DelayMs 2] @
       send_events (lcd_init rs en dat4 dat5 dat6 dat7 s) 0x06 0"
    unfolding send_events_def nibble_events_def pulse_events_def pins
    by (simp add: lcd_init_def Let_def trace_lcd_command trace_lcd_display_on trace_lcd_clear
        trace_lcd_write_data delay_ms_def delay_us_def pin_write_def lcd_consts
        send_events_def nibble_events_def pulse_events_def)
  show ?thesis
    unfolding Let_def using tr pins bytes waits by (intro conjI)
qed


subsection \<open>C5 and C4: the cursor position\<close>

lemma take_bit_8_32_add:
  "take_bit 8 (take_bit 32 a + take_bit 32 b) = take_bit 8 (a + b)" for a b :: int
proof -
  have "take_bit 8 (take_bit 32 a + take_bit 32 b) =
      take_bit 8 (take_bit 8 (take_bit 32 a) + take_bit 8 (take_bit 32 b))"
    by (simp only: take_bit_add)
  also have "\<dots> = take_bit 8 (take_bit 8 a + take_bit 8 b)" by simp
  also have "\<dots> = take_bit 8 (a + b)" by (simp only: take_bit_add)
  finally show ?thesis .
qed

lemma ucast_add_u32_u8: "(ucast ((a :: u32) + b) :: u8) = ucast a + ucast b"
  by transfer (simp add: take_bit_8_32_add)

lemma ucast_ucast_u16: "(ucast (ucast (c :: u16) :: u32) :: u8) = ucast c"
  by transfer simp

lemma ucast_ucast_u8: "(ucast (ucast (c :: u8) :: u32) :: u8) = c"
  by transfer simp

lemma ddram_command_byte:
  "ucast ((ucast LCD_SETDDRAMADDR :: u32) OR (ucast (col :: u16) + x)) =
     LCD_SETDDRAMADDR OR (ucast col + ucast x)"
  by (simp add: unsigned_or_eq ucast_add_u32_u8 ucast_ucast_u16 ucast_ucast_u8)

lemma small_row_cases:
  assumes "unat (row :: u8) < 4"
  shows "row = 0 \<or> row = 1 \<or> row = 2 \<or> row = 3"
proof -
  from assms have "unat row = 0 \<or> unat row = 1 \<or> unat row = 2 \<or> unat row = 3" by arith
  then have "unat row = unat (0 :: u8) \<or> unat row = unat (1 :: u8)
      \<or> unat row = unat (2 :: u8) \<or> unat row = unat (3 :: u8)" by simp
  then show ?thesis by (simp only: word_unat_eq_iff [symmetric])
qed

lemma unat_clamped_row:
  fixes row :: u8
  assumes "1 \<le> n"
  shows "unat (if uint (if unat row \<ge> length row_offsets
                        then of_nat (length row_offsets - 1) else row) \<ge> n
               then word_of_int (n - 1)
               else (if unat row \<ge> length row_offsets
                     then of_nat (length row_offsets - 1) else row)) =
         min (unat row) (min (length row_offsets - 1) (nat n - 1))"
proof (cases "unat row \<ge> 4")
  case True
  show ?thesis
  proof (cases "n \<le> 3")
    case True
    with assms have "n = 1 \<or> n = 2 \<or> n = 3" by arith
    with \<open>unat row \<ge> 4\<close> show ?thesis by (auto simp: row_offsets_def)
  next
    case False
    with \<open>unat row \<ge> 4\<close> show ?thesis by (simp add: row_offsets_def)
  qed
next
  case False
  then have row: "row = 0 \<or> row = 1 \<or> row = 2 \<or> row = 3"
    using small_row_cases by simp
  show ?thesis
  proof (cases "n \<le> 3")
    case True
    with assms have "n = 1 \<or> n = 2 \<or> n = 3" by arith
    with row show ?thesis by (auto simp: row_offsets_def)
  next
    case False
    with row show ?thesis by (auto simp: row_offsets_def)
  qed
qed

lemma lcd_set_cursor_lines_clamp:
  assumes "1 \<le> n"
  shows "lcd_set_cursor_lines n col row s =
     Some (lcd_command (LCD_SETDDRAMADDR OR
        (ucast col + row_offsets ! min (unat row) (min (length row_offsets - 1) (nat n - 1)))) s)"
proof -
  define r where "r = (if uint (if unat row \<ge> length row_offsets
                        then of_nat (length row_offsets - 1) else row) \<ge> n
               then word_of_int (n - 1)
               else (if unat row \<ge> length row_offsets
                     then of_nat (length row_offsets - 1) else row))"
  have u: "unat r = min (unat row) (min (length row_offsets - 1) (nat n - 1))"
    unfolding r_def by (rule unat_clamped_row [OF assms])
  have lt: "unat r < length row_offsets"
    unfolding u by (simp add: row_offsets_def)
  have "lcd_set_cursor_lines n col row s =
      (case row_offsets_at (unat r) of None \<Rightarrow> None
       | Some off \<Rightarrow> Some (lcd_command
               (ucast ((ucast LCD_SETDDRAMADDR :: u32) OR (ucast col + ucast off))) s))"
    unfolding lcd_set_cursor_lines_def Let_def r_def ..
  also have "\<dots> = Some (lcd_command (LCD_SETDDRAMADDR OR (ucast col + row_offsets ! unat r)) s)"
    using lt by (simp add: row_offsets_at_def ddram_command_byte ucast_ucast_u8)
  finally show ?thesis unfolding u .
qed

lemma ddram_address_field:
  assumes "unat (col :: u16) + unat (off :: u8) < 128"
  shows "unat ((LCD_SETDDRAMADDR OR (ucast col + off)) AND 0x7F) = unat col + unat off"
    and "bit (LCD_SETDDRAMADDR OR (ucast col + off)) 7"
proof -
  define y :: u8 where "y = ucast col + off"
  have c: "unat (ucast col :: u8) = unat col"
    using assms by (simp add: unsigned_ucast_eq take_bit_nat_eq_self)
  have s: "unat y = unat col + unat off"
    using assms c by (simp add: y_def unat_word_ariths)
  have "(0x80 OR y) AND 0x7F = take_bit 7 ((2 ^ 7 :: u8) OR y)"
    by (simp add: take_bit_eq_mask mask_eq_exp_minus_1)
  also have "\<dots> = take_bit 7 y"
    by (simp only: take_bit_or take_bit_of_exp) simp
  finally have "unat ((0x80 OR y) AND 0x7F) = take_bit 7 (unat y)"
    by (simp add: unsigned_take_bit_eq)
  also have "\<dots> = unat y"
    using assms s by (simp add: take_bit_nat_eq_self)
  finally show "unat ((LCD_SETDDRAMADDR OR (ucast col + off)) AND 0x7F) = unat col + unat off"
    using s by (simp add: LCD_SETDDRAMADDR_def y_def)
  show "bit (LCD_SETDDRAMADDR OR (ucast col + off)) 7"
    by (simp add: LCD_SETDDRAMADDR_def bit_simps)
qed

lemma level_inj: "level a = level b \<longleftrightarrow> a = b"
  by (simp add: level_def)

lemma byte_eqI:
  fixes v w :: u8
  assumes "bit v 0 = bit w 0" "bit v 1 = bit w 1" "bit v 2 = bit w 2" "bit v 3 = bit w 3"
    "bit v 4 = bit w 4" "bit v 5 = bit w 5" "bit v 6 = bit w 6" "bit v 7 = bit w 7"
  shows "v = w"
proof (rule bit_word_eqI)
  fix n :: nat
  assume "n < LENGTH(8)"
  then have "n = 0 \<or> n = 1 \<or> n = 2 \<or> n = 3 \<or> n = 4 \<or> n = 5 \<or> n = 6 \<or> n = 7"
    by simp arith
  with assms show "bit v n = bit w n" by (elim disjE) simp_all
qed

lemma nibble_bits:
  "bit ((v :: u8) AND 0xF) 0 = bit v 0" "bit (v AND 0xF) 1 = bit v 1"
  "bit (v AND 0xF) 2 = bit v 2" "bit (v AND 0xF) 3 = bit v 3"
  "bit (drop_bit 4 v AND 0xF) 0 = bit v 4" "bit (drop_bit 4 v AND 0xF) 1 = bit v 5"
  "bit (drop_bit 4 v AND 0xF) 2 = bit v 6" "bit (drop_bit 4 v AND 0xF) 3 = bit v 7"
  by (simp_all add: bit_simps)

lemma send_events_inj:
  assumes "send_events s v m = send_events s w m"
  shows "v = w"
  using assms
  by (intro byte_eqI) (simp_all add: send_events_def nibble_events_def level_inj bit_simps)

lemma shifted_mod_differs:
  assumes "j < k" "k < 128"
  shows "(a + j) mod 128 \<noteq> (a + k) mod (128::nat)"
proof
  assume e: "(a + j) mod 128 = (a + k) mod 128"
  define r where "r = (a + j) mod 128"
  define d where "d = k - j"
  have r: "r < 128" by (simp add: r_def)
  have d: "0 < d" "d < 128" using assms by (simp_all add: d_def)
  have "(a + k) mod 128 = ((a + j) + d) mod 128" using assms by (simp add: d_def)
  also have "\<dots> = (r + d) mod 128" unfolding r_def by (simp only: mod_add_left_eq)
  finally have eq: "(r + d) mod 128 = r" using e by (simp add: r_def)
  show False
  proof (cases "r + d < 128")
    case True
    then have "(r + d) mod 128 = r + d" by (rule mod_less)
    with eq d show False by simp
  next
    case False
    then have "(r + d) mod 128 = (r + d - 128) mod 128" by (simp add: le_mod_geq)
    also have "\<dots> = r + d - 128" using r d by (intro mod_less) simp
    finally show False using eq False d by simp
  qed
qed
lemma ddram_bytes_differ:
  fixes c :: u8
  shows "0x80 OR (c + 0x00) \<noteq> 0x80 OR (c + 0x50)"
    "0x80 OR (c + 0x40) \<noteq> 0x80 OR (c + 0x50)"
    "0x80 OR (c + 0x10) \<noteq> 0x80 OR (c + 0x50)"
proof -
  have low: "unat ((0x80 OR y) AND 0x7F) = unat y mod 128" for y :: u8
  proof -
    have "(0x80 OR y) AND 0x7F = take_bit 7 ((2 ^ 7 :: u8) OR y)"
      by (simp add: take_bit_eq_mask mask_eq_exp_minus_1)
    also have "\<dots> = take_bit 7 y"
      by (simp only: take_bit_or take_bit_of_exp) simp
    finally have "unat ((0x80 OR y) AND 0x7F) = take_bit 7 (unat y)"
      by (simp add: unsigned_take_bit_eq)
    then show ?thesis by (simp add: take_bit_eq_mod)
  qed
  have sum: "unat (c + k) = (unat c + unat k) mod 256" for k :: u8
    by (simp add: unat_word_ariths)
  have red: "x mod 256 mod 128 = x mod 128" for x :: nat
    by (simp add: mod_mod_cancel)
  have ne: "0x80 OR (c + k) \<noteq> 0x80 OR (c + 0x50)"
    if k: "(unat c + unat k) mod 128 \<noteq> (unat c + 80) mod 128" for k :: u8
  proof
    assume eq: "0x80 OR (c + k) = 0x80 OR (c + 0x50)"
    have "unat ((0x80 OR (c + k)) AND 0x7F) = unat ((0x80 OR (c + 0x50)) AND 0x7F)"
      by (simp only: eq)
    then have "(unat c + unat k) mod 256 mod 128 = (unat c + unat (0x50 :: u8)) mod 256 mod 128"
      by (simp only: low sum)
    moreover have "unat (0x50 :: u8) = 80" by simp
    ultimately have "(unat c + unat k) mod 128 = (unat c + 80) mod 128"
      by (simp only: red)
    with k show False by (rule notE)
  qed
  have a0: "(a + 0) mod 128 \<noteq> (a + 80) mod 128" for a :: nat
    by (rule shifted_mod_differs) simp_all
  have a64: "(a + 64) mod 128 \<noteq> (a + 80) mod 128" for a :: nat
    by (rule shifted_mod_differs) simp_all
  have a16: "(a + 16) mod 128 \<noteq> (a + 80) mod 128" for a :: nat
    by (rule shifted_mod_differs) simp_all
  show "0x80 OR (c + 0x00) \<noteq> 0x80 OR (c + 0x50)"
    by (rule ne) (simp only: unsigned_0 a0 not_False_eq_True)
  have u: "unat (0x40 :: u8) = 64" "unat (0x10 :: u8) = 16" by simp_all
  show "0x80 OR (c + 0x40) \<noteq> 0x80 OR (c + 0x50)"
    by (rule ne) (simp only: u a64 not_False_eq_True)
  show "0x80 OR (c + 0x10) \<noteq> 0x80 OR (c + 0x50)"
    by (rule ne) (simp only: u a16 not_False_eq_True)
qed

lemma lcd_set_cursor_lines_emits:
  assumes "1 \<le> n"
  shows "map_option trace (lcd_set_cursor_lines n col row s) =
      Some (trace s @ send_events s (LCD_SETDDRAMADDR OR
        (ucast col + row_offsets ! min (unat row) (min (length row_offsets - 1) (nat n - 1)))) 0)"
    and "map_option sent (lcd_set_cursor_lines n col row s) =
      Some (sent s @ [(LCD_SETDDRAMADDR OR
        (ucast col + row_offsets ! min (unat row) (min (length row_offsets - 1) (nat n - 1))), 0)])"
  by (simp_all add: lcd_set_cursor_lines_clamp [OF assms] trace_lcd_command)

text \<open>
  C5. For every \<open>col\<close>, \<open>row\<close> and state, \<open>lcd_set_cursor\<close> returns (no read outside
  \<open>row_offsets\<close> happens): the row used is the smaller of \<open>row\<close> and of the smaller of
  (length of \<open>row_offsets\<close> - 1) and (\<open>NUM_LINES\<close> - 1), and what the call emits on the
  pins is exactly one transfer with register select 0 of the byte
  \<open>LCD_SETDDRAMADDR | (col + row_offsets[clamped row])\<close> cut to 8 bits, with no check of
  \<open>col\<close>. The same holds for every configured line count of at least 1. When
  \<open>col + row_offsets[clamped row]\<close> is below 128, the low seven bits of the byte are exactly
  that address and bit 7 is set.
\<close>

theorem lcd_set_cursor_clamped_address:
  "(let r = min (unat row) (min (length row_offsets - 1) (nat NUM_LINES - 1));
        b = LCD_SETDDRAMADDR OR (ucast col + row_offsets ! r)
    in r < length row_offsets
     \<and> map_option trace (lcd_set_cursor col row s) = Some (trace s @ send_events s b 0)
     \<and> map_option sent (lcd_set_cursor col row s) = Some (sent s @ [(b, 0)])
     \<and> lcd_set_cursor col row s = Some (lcd_command b s)
     \<and> (unat col + unat (row_offsets ! r) < 128 \<longrightarrow>
          unat (b AND 0x7F) = unat col + unat (row_offsets ! r) \<and> bit b 7))
   \<and> (1 \<le> n \<longrightarrow>
       (let r = min (unat row) (min (length row_offsets - 1) (nat n - 1));
            b = LCD_SETDDRAMADDR OR (ucast col + row_offsets ! r)
        in map_option trace (lcd_set_cursor_lines n col row s) =
             Some (trace s @ send_events s b 0)
         \<and> map_option sent (lcd_set_cursor_lines n col row s) = Some (sent s @ [(b, 0)])))"
proof -
  let ?r = "min (unat row) (min (length row_offsets - 1) (nat NUM_LINES - 1))"
  let ?b = "LCD_SETDDRAMADDR OR (ucast col + row_offsets ! ?r)"
  have one: "1 \<le> NUM_LINES" by (simp add: NUM_LINES_def)
  have r: "?r < length row_offsets" by (simp add: row_offsets_def)
  have t: "map_option trace (lcd_set_cursor col row s) = Some (trace s @ send_events s ?b 0)"
    unfolding lcd_set_cursor_def by (rule lcd_set_cursor_lines_emits(1) [OF one])
  have l: "map_option sent (lcd_set_cursor col row s) = Some (sent s @ [(?b, 0)])"
    unfolding lcd_set_cursor_def by (rule lcd_set_cursor_lines_emits(2) [OF one])
  have c: "lcd_set_cursor col row s = Some (lcd_command ?b s)"
    unfolding lcd_set_cursor_def by (rule lcd_set_cursor_lines_clamp [OF one])
  have a: "unat col + unat (row_offsets ! ?r) < 128 \<longrightarrow>
      unat (?b AND 0x7F) = unat col + unat (row_offsets ! ?r) \<and> bit ?b 7"
    using ddram_address_field [of col "row_offsets ! ?r"] by blast
  have g: "1 \<le> n \<longrightarrow>
      map_option trace (lcd_set_cursor_lines n col row s) =
        Some (trace s @ send_events s (LCD_SETDDRAMADDR OR
          (ucast col + row_offsets ! min (unat row) (min (length row_offsets - 1) (nat n - 1)))) 0)
      \<and> map_option sent (lcd_set_cursor_lines n col row s) =
        Some (sent s @ [(LCD_SETDDRAMADDR OR
          (ucast col + row_offsets ! min (unat row) (min (length row_offsets - 1) (nat n - 1))), 0)])"
    using lcd_set_cursor_lines_emits [of n col row s] by blast
  show ?thesis
    unfolding Let_def using r t l c a g by (intro conjI)
qed

theorem lcd_set_cursor_clamped_address_witness:
  "map_option trace (lcd_set_cursor 5 7 wired_state) =
     Some [PinWrite 11 0,
        PinWrite 4 0, PinWrite 5 0, PinWrite 6 1, PinWrite 7 1,
        PinWrite 12 0, DelayUs 1, PinWrite 12 1, DelayUs 1, PinWrite 12 0, DelayUs 100,
        PinWrite 4 1, PinWrite 5 0, PinWrite 6 1, PinWrite 7 0,
        PinWrite 12 0, DelayUs 1, PinWrite 12 1, DelayUs 1, PinWrite 12 0, DelayUs 100]
   \<and> map_option sent (lcd_set_cursor 5 7 wired_state) = Some [(0xC5, 0)]
   \<and> (1 :: int) \<le> 4
   \<and> map_option sent (lcd_set_cursor_lines 4 5 7 wired_state) = Some [(0xD5, 0)]
   \<and> unat (5 :: u16) + unat (0x40 :: u8) < 128
   \<and> unat ((0xC5 :: u8) AND 0x7F) = 0x45"
proof -
  note th = lcd_set_cursor_clamped_address [of row col s n for row col s n, unfolded Let_def]
  note th1 = th [of 7 5 wired_state 4]
  have w: "trace wired_state = []" "sent wired_state = []"
    by (simp_all add: wired_state_def power_on_state_def)
  have "map_option trace (lcd_set_cursor 5 7 wired_state) =
     Some [PinWrite 11 0,
        PinWrite 4 0, PinWrite 5 0, PinWrite 6 1, PinWrite 7 1,
        PinWrite 12 0, DelayUs 1, PinWrite 12 1, DelayUs 1, PinWrite 12 0, DelayUs 100,
        PinWrite 4 1, PinWrite 5 0, PinWrite 6 1, PinWrite 7 0,
        PinWrite 12 0, DelayUs 1, PinWrite 12 1, DelayUs 1, PinWrite 12 0, DelayUs 100]"
    using th1 [THEN conjunct1, THEN conjunct2, THEN conjunct1]
    by (simp add: w row_offsets_def NUM_LINES_def LCD_SETDDRAMADDR_def send_events_def
        nibble_events_def pulse_events_def level_def bit_simps drop_bit_eq_div
        wired_state_def power_on_state_def)
  moreover have "map_option sent (lcd_set_cursor 5 7 wired_state) = Some [(0xC5, 0)]"
    using th1 [THEN conjunct1, THEN conjunct2, THEN conjunct2, THEN conjunct1]
    by (simp add: w row_offsets_def NUM_LINES_def LCD_SETDDRAMADDR_def)
  moreover have "map_option sent (lcd_set_cursor_lines 4 5 7 wired_state) = Some [(0xD5, 0)]"
    using th1 [THEN conjunct2]
    by (simp add: w row_offsets_def LCD_SETDDRAMADDR_def)
  moreover have "unat ((0xC5 :: u8) AND 0x7F) = 0x45"
    using th1 [THEN conjunct1, THEN conjunct2, THEN conjunct2, THEN conjunct2, THEN conjunct2]
    by (simp add: row_offsets_def NUM_LINES_def LCD_SETDDRAMADDR_def)
  ultimately show ?thesis by simp
qed

text \<open>
  C4, in the form that holds on the code. For every column: with the driver configured
  for 2 lines (\<open>NUM_LINES\<close> is 2 in lcd_16x2.h), \<open>lcd_set_cursor\<close> called with any
  \<open>row \<ge> 2\<close>, so also with \<open>row \<ge> 4\<close>, emits exactly the transfer of the
  Set-DDRAM-Address command built with the row-1 offset 0x40; and for a configured line
  count of at least 1, a call with \<open>row \<ge> 4\<close> emits the transfer of the command built
  with the row-3 offset 0x50 if and only if the configured line count is at least 4.
\<close>

theorem lcd_set_cursor_row_clamp:
  "(2 \<le> unat row \<longrightarrow>
      map_option trace (lcd_set_cursor col row s) =
        Some (trace s @ send_events s (LCD_SETDDRAMADDR OR (ucast col + 0x40)) 0)
      \<and> map_option sent (lcd_set_cursor col row s) =
        Some (sent s @ [(LCD_SETDDRAMADDR OR (ucast col + 0x40), 0)]))
   \<and> (4 \<le> unat row \<and> 1 \<le> n \<longrightarrow>
      ((map_option trace (lcd_set_cursor_lines n col row s) =
          Some (trace s @ send_events s (LCD_SETDDRAMADDR OR (ucast col + 0x50)) 0))
        \<longleftrightarrow> 4 \<le> n)
      \<and> ((map_option sent (lcd_set_cursor_lines n col row s) =
          Some (sent s @ [(LCD_SETDDRAMADDR OR (ucast col + 0x50), 0)]))
        \<longleftrightarrow> 4 \<le> n))
   \<and> lcd_set_cursor col row s = lcd_set_cursor_lines 2 col row s
   \<and> row_offsets ! 1 = 0x40 \<and> row_offsets ! 3 = 0x50"
proof (intro conjI impI)
  assume "2 \<le> unat row"
  then have m: "min (unat row) (min (length row_offsets - 1) (nat 2 - 1)) = 1"
    by (simp add: row_offsets_def)
  from lcd_set_cursor_lines_emits(1) [of 2 col row s] m
  show "map_option trace (lcd_set_cursor col row s) =
        Some (trace s @ send_events s (LCD_SETDDRAMADDR OR (ucast col + 0x40)) 0)"
    by (simp add: lcd_set_cursor_def NUM_LINES_def row_offsets_def)
  from lcd_set_cursor_lines_emits(2) [of 2 col row s] m
  show "map_option sent (lcd_set_cursor col row s) =
        Some (sent s @ [(LCD_SETDDRAMADDR OR (ucast col + 0x40), 0)])"
    by (simp add: lcd_set_cursor_def NUM_LINES_def row_offsets_def)
next
  assume a: "4 \<le> unat row \<and> 1 \<le> n"
  let ?b = "LCD_SETDDRAMADDR OR
    (ucast col + row_offsets ! min (unat row) (min (length row_offsets - 1) (nat n - 1)))"
  let ?b50 = "LCD_SETDDRAMADDR OR (ucast col + 0x50)"
  have t: "map_option trace (lcd_set_cursor_lines n col row s) =
      Some (trace s @ send_events s ?b 0)"
    and l: "map_option sent (lcd_set_cursor_lines n col row s) = Some (sent s @ [(?b, 0)])"
    using a lcd_set_cursor_lines_emits [of n col row s] by simp_all
  have b: "?b = ?b50 \<longleftrightarrow> 4 \<le> n"
  proof (cases "4 \<le> n")
    case True
    with a have "min (unat row) (min (length row_offsets - 1) (nat n - 1)) = 3"
      unfolding row_offsets_def by simp
    with True show ?thesis by (simp add: row_offsets_def)
  next
    case False
    with a have n: "n = 1 \<or> n = 2 \<or> n = 3" by arith
    from n a have "?b \<noteq> ?b50"
      using ddram_bytes_differ [of "ucast col"]
      by (auto simp: row_offsets_def LCD_SETDDRAMADDR_def)
    with False show ?thesis by simp
  qed
  have e: "send_events s ?b 0 = send_events s ?b50 0 \<longleftrightarrow> ?b = ?b50"
    by (rule iffI) (erule send_events_inj, simp)
  show "(map_option trace (lcd_set_cursor_lines n col row s) =
          Some (trace s @ send_events s ?b50 0)) \<longleftrightarrow> 4 \<le> n"
    unfolding t using b e by simp
  show "(map_option sent (lcd_set_cursor_lines n col row s) =
          Some (sent s @ [(?b50, 0)])) \<longleftrightarrow> 4 \<le> n"
    unfolding l using b by simp
qed (simp_all add: lcd_set_cursor_def NUM_LINES_def row_offsets_def)

theorem lcd_set_cursor_row_clamp_witness:
  "2 \<le> unat (4 :: u8) \<and> 4 \<le> unat (4 :: u8) \<and> (1 :: int) \<le> 4 \<and> (1 :: int) \<le> 3
   \<and> map_option sent (lcd_set_cursor 0 4 wired_state) = Some [(0xC0, 0)]
   \<and> map_option sent (lcd_set_cursor_lines 4 0 4 wired_state) = Some [(0xD0, 0)]
   \<and> map_option sent (lcd_set_cursor_lines 3 0 4 wired_state) \<noteq> Some [(0xD0, 0)]"
proof -
  have w: "sent wired_state = []" by (simp add: wired_state_def power_on_state_def)
  have "map_option sent (lcd_set_cursor 0 4 wired_state) = Some [(0xC0, 0)]"
    using lcd_set_cursor_row_clamp [of 4 0 wired_state 4, THEN conjunct1]
    by (simp add: w LCD_SETDDRAMADDR_def)
  moreover have "map_option sent (lcd_set_cursor_lines 4 0 4 wired_state) = Some [(0xD0, 0)]"
    using lcd_set_cursor_row_clamp [of 4 0 wired_state 4, THEN conjunct2, THEN conjunct1]
    by (simp add: w LCD_SETDDRAMADDR_def)
  moreover have "map_option sent (lcd_set_cursor_lines 3 0 4 wired_state) \<noteq> Some [(0xD0, 0)]"
    using lcd_set_cursor_row_clamp [of 4 0 wired_state 3, THEN conjunct2, THEN conjunct1]
    by (simp add: w LCD_SETDDRAMADDR_def)
  ultimately show ?thesis by simp
qed

text \<open>
  C4 as stated fails on the code: \<open>lcd_set_cursor(0, 4)\<close> emits the transfer of the command
  byte 0xC0 (offset 0x40), which is not the transfer of 0xD0, the byte built from the row-3
  offset 0x50.
\<close>

theorem lcd_set_cursor_row4_counterexample:
  "4 \<le> unat (4 :: u8)
   \<and> map_option sent (lcd_set_cursor 0 4 power_on_state) = Some [(0xC0, 0)]
   \<and> map_option trace (lcd_set_cursor 0 4 power_on_state) =
       Some (send_events power_on_state 0xC0 0)
   \<and> LCD_SETDDRAMADDR OR (ucast (0 :: u16) + 0x50) = (0xD0 :: u8)
   \<and> send_events power_on_state 0xC0 0 \<noteq> send_events power_on_state 0xD0 0"
proof -
  have a: "lcd_set_cursor 0 4 power_on_state = Some (lcd_command 0xC0 power_on_state)"
    by (simp add: lcd_set_cursor_def lcd_set_cursor_lines_def NUM_LINES_def Let_def
        row_offsets_at_def row_offsets_def LCD_SETDDRAMADDR_def)
  have p: "trace power_on_state = []" "sent power_on_state = []"
    by (simp_all add: power_on_state_def)
  have "send_events power_on_state 0xC0 0 \<noteq> send_events power_on_state 0xD0 0"
    using send_events_inj [of power_on_state "0xC0" 0 "0xD0"] by auto
  then show ?thesis
    by (simp add: a p trace_lcd_command LCD_SETDDRAMADDR_def)
qed

subsection \<open>Facts about the command bytes\<close>

lemma byte_le_cases:
  assumes "unat (d :: u8) < 8"
  shows "d = 0 \<or> d = 1 \<or> d = 2 \<or> d = 3 \<or> d = 4 \<or> d = 5 \<or> d = 6 \<or> d = 7"
proof -
  from assms have "unat d = 0 \<or> unat d = 1 \<or> unat d = 2 \<or> unat d = 3 \<or> unat d = 4
      \<or> unat d = 5 \<or> unat d = 6 \<or> unat d = 7" by arith
  then have "unat d = unat (0 :: u8) \<or> unat d = unat (1 :: u8) \<or> unat d = unat (2 :: u8)
      \<or> unat d = unat (3 :: u8) \<or> unat d = unat (4 :: u8) \<or> unat d = unat (5 :: u8)
      \<or> unat d = unat (6 :: u8) \<or> unat d = unat (7 :: u8)" by simp
  then show ?thesis by (simp only: word_unat_eq_iff [symmetric])
qed

lemma and_all_ones: "(d :: u8) AND 255 = d"
proof -
  have "(255 :: u8) = - 1" by simp
  then show ?thesis by (simp only: and.right_neutral)
qed

lemma low3_cases:
  assumes "(d :: u8) AND 0xF8 = 0"
  shows "d = 0 \<or> d = 1 \<or> d = 2 \<or> d = 3 \<or> d = 4 \<or> d = 5 \<or> d = 6 \<or> d = 7"
proof -
  have "d = d AND (0xF8 OR 0x07)" by (simp add: and_all_ones)
  also have "\<dots> = (d AND 0xF8) OR (d AND 0x07)" by (simp only: bit.conj_disj_distrib)
  also have "\<dots> = d AND 0x07" using assms by simp
  finally have "d = d AND 0x07" .
  moreover have "d AND 0x07 \<le> 0x07" by (rule word_and_le1)
  ultimately have "d \<le> 7" by simp
  then have "unat d < 8" by (simp add: word_le_nat_alt)
  then show ?thesis by (rule byte_le_cases)
qed

lemma low2_cases:
  assumes "(d :: u8) AND 0xFC = 0"
  shows "d = 0 \<or> d = 1 \<or> d = 2 \<or> d = 3"
proof -
  have "d AND 0xF8 = (d AND 0xFC) AND 0xF8" by (simp add: and.assoc)
  then have "d AND 0xF8 = 0" using assms by simp
  from low3_cases [OF this] assms show ?thesis by auto
qed

lemma control_facts:
  assumes "(d :: u8) AND 0xF8 = 0"
  shows "(d OR 1) AND 0xF8 = 0" "(d OR 2) AND 0xF8 = 0" "(d OR 4) AND 0xF8 = 0"
    "(d AND NOT 1) AND 0xF8 = 0" "(d AND NOT 2) AND 0xF8 = 0" "(d AND NOT 4) AND 0xF8 = 0"
    "(8 OR d) AND 0xF8 = 8" "(8 OR d) AND 7 = d" "(8 OR d) AND 0xFC \<noteq> 4"
  using low3_cases [OF assms] by auto

lemma mode_facts:
  assumes "(m :: u8) AND 0xFC = 0"
  shows "(m OR 1) AND 0xFC = 0" "(m OR 2) AND 0xFC = 0"
    "(m AND NOT 1) AND 0xFC = 0" "(m AND NOT 2) AND 0xFC = 0"
    "(4 OR m) AND 0xFC = 4" "(4 OR m) AND 3 = m" "(4 OR m) AND 0xF8 \<noteq> 8"
  using low2_cases [OF assms] by auto

lemma ddram_not_control: "(0x80 OR (x :: u8)) AND 0xF8 \<noteq> 8" "(0x80 OR (x :: u8)) AND 0xFC \<noteq> 4"
proof -
  show "(0x80 OR x) AND 0xF8 \<noteq> 8"
  proof
    assume "(0x80 OR x) AND 0xF8 = 8"
    then have "bit ((0x80 OR x) AND 0xF8) 7 = bit (8 :: u8) 7" by simp
    then show False by (simp add: bit_simps)
  qed
  show "(0x80 OR x) AND 0xFC \<noteq> 4"
  proof
    assume "(0x80 OR x) AND 0xFC = 4"
    then have "bit ((0x80 OR x) AND 0xFC) 7 = bit (4 :: u8) 7" by simp
    then show False by (simp add: bit_simps)
  qed
qed

subsection \<open>C8: switching the cursor on twice\<close>

lemma cursor_on_fields:
  "display_control (lcd_cursor_on s) = display_control s OR LCD_CURSORON"
  "display_mode (lcd_cursor_on s) = display_mode s"
  "sent (lcd_cursor_on s) =
     sent s @ [(LCD_DISPLAYCONTROL OR (display_control s OR LCD_CURSORON), 0)]"
  "trace (lcd_cursor_on s) =
     trace s @ send_events s (LCD_DISPLAYCONTROL OR (display_control s OR LCD_CURSORON)) 0"
  by (simp_all add: lcd_cursor_on_def Let_def trace_lcd_command
      send_events_def nibble_events_def pulse_events_def)

lemma cursor_off_fields:
  "display_control (lcd_cursor_off s) = display_control s AND NOT LCD_CURSORON"
  "display_mode (lcd_cursor_off s) = display_mode s"
  "sent (lcd_cursor_off s) =
     sent s @ [(LCD_DISPLAYCONTROL OR (display_control s AND NOT LCD_CURSORON), 0)]"
  "trace (lcd_cursor_off s) =
     trace s @ send_events s (LCD_DISPLAYCONTROL OR (display_control s AND NOT LCD_CURSORON)) 0"
  by (simp_all add: lcd_cursor_off_def Let_def trace_lcd_command
      send_events_def nibble_events_def pulse_events_def)

lemma or_or_same: "(d :: u8) OR f OR f = d OR f"
  by (simp add: or.assoc)

lemma or_and_not_same: "((d :: u8) OR f) AND NOT f = d AND NOT f"
  by (simp add: bit.conj_disj_distrib2)

text \<open>
  C8. From any state, two calls of \<open>lcd_cursor_on\<close> in a row each emit the transfer of the
  same command byte \<open>LCD_DISPLAYCONTROL | display_control | LCD_CURSORON\<close>, whose cursor bit
  (bit 1) is set, and the second call leaves the state as the first left it; a call of
  \<open>lcd_cursor_off\<close> after them emits the transfer of the command byte
  \<open>LCD_DISPLAYCONTROL | (display_control & ~LCD_CURSORON)\<close>, whose cursor bit is clear. When
  \<open>display_control\<close> holds nothing above its three flag bits, both bytes are Display Control
  commands for the controller.
\<close>

theorem lcd_cursor_on_twice:
  "(let s1 = lcd_cursor_on s; s2 = lcd_cursor_on s1; s3 = lcd_cursor_off s2;
        on_byte = LCD_DISPLAYCONTROL OR (display_control s OR LCD_CURSORON);
        off_byte = LCD_DISPLAYCONTROL OR (display_control s AND NOT LCD_CURSORON)
    in trace s1 = trace s @ send_events s on_byte 0
     \<and> trace s2 = trace s1 @ send_events s on_byte 0
     \<and> trace s3 = trace s2 @ send_events s off_byte 0
     \<and> sent s1 = sent s @ [(on_byte, 0)]
     \<and> sent s2 = sent s1 @ [(on_byte, 0)]
     \<and> sent s3 = sent s2 @ [(off_byte, 0)]
     \<and> s2\<lparr>trace := trace s1, sent := sent s1, held := held s1\<rparr> = s1
     \<and> display_control s1 = display_control s OR LCD_CURSORON
     \<and> display_control s3 = display_control s AND NOT LCD_CURSORON
     \<and> bit on_byte 3 \<and> bit on_byte 1 \<and> bit off_byte 3 \<and> \<not> bit off_byte 1
     \<and> (display_control s AND 0xF8 = 0 \<longrightarrow>
          is_display_control (on_byte, 0) \<and> is_display_control (off_byte, 0)))"
proof -
  let ?s1 = "lcd_cursor_on s"
  let ?s2 = "lcd_cursor_on ?s1"
  let ?s3 = "lcd_cursor_off ?s2"
  let ?on = "LCD_DISPLAYCONTROL OR (display_control s OR LCD_CURSORON)"
  let ?off = "LCD_DISPLAYCONTROL OR (display_control s AND NOT LCD_CURSORON)"
  have ev: "send_events ?s1 v m = send_events s v m" "send_events ?s2 v m = send_events s v m"
    for v m
    by (simp_all add: send_events_def nibble_events_def pulse_events_def)
  have t1: "trace ?s1 = trace s @ send_events s ?on 0"
    by (simp add: cursor_on_fields)
  have t2: "trace ?s2 = trace ?s1 @ send_events s ?on 0"
    by (simp add: cursor_on_fields(4) [of ?s1] cursor_on_fields(1) ev or_or_same)
  have t3: "trace ?s3 = trace ?s2 @ send_events s ?off 0"
    by (simp add: cursor_off_fields(4) [of ?s2] cursor_on_fields(1) ev or_or_same or_and_not_same)
  have l1: "sent ?s1 = sent s @ [(?on, 0)]"
    by (simp add: cursor_on_fields)
  have l2: "sent ?s2 = sent ?s1 @ [(?on, 0)]"
    by (simp add: cursor_on_fields(3) [of ?s1] cursor_on_fields(1) or_or_same)
  have l3: "sent ?s3 = sent ?s2 @ [(?off, 0)]"
    by (simp add: cursor_off_fields(3) [of ?s2] cursor_on_fields(1) or_or_same or_and_not_same)
  have same: "?s2\<lparr>trace := trace ?s1, sent := sent ?s1, held := held ?s1\<rparr> = ?s1"
    by (rule lcd_state.equality) (simp_all add: cursor_on_fields or_or_same)
  have d1: "display_control ?s1 = display_control s OR LCD_CURSORON"
    by (simp add: cursor_on_fields)
  have d3: "display_control ?s3 = display_control s AND NOT LCD_CURSORON"
    by (simp add: cursor_off_fields cursor_on_fields or_or_same or_and_not_same)
  have bits: "bit ?on 3" "bit ?on 1" "bit ?off 3" "\<not> bit ?off 1"
    by (simp_all add: lcd_consts bit_simps)
  have gen: "display_control s AND 0xF8 = 0 \<longrightarrow>
      is_display_control (?on, 0) \<and> is_display_control (?off, 0)"
  proof
    assume a: "display_control s AND 0xF8 = 0"
    from control_facts(2,5) [OF a]
      control_facts(7) [of "display_control s OR 2"]
      control_facts(7) [of "display_control s AND NOT 2"]
    show "is_display_control (?on, 0) \<and> is_display_control (?off, 0)"
      by (simp add: is_display_control_def lcd_consts)
  qed
  show ?thesis
    unfolding Let_def using t1 t2 t3 l1 l2 l3 same d1 d3 bits gen by (intro conjI)
qed

lemma lcd_init_fields:
  "display_function (lcd_init rs en d4 d5 d6 d7 s) = 0x08"
  "display_control (lcd_init rs en d4 d5 d6 d7 s) = 0x04"
  "display_mode (lcd_init rs en d4 d5 d6 d7 s) = 0x02"
  "sent (lcd_init rs en d4 d5 d6 d7 s) = sent s @ [(0x28, 0), (0x0C, 0), (0x01, 0), (0x06, 0)]"
  "rs_pin (lcd_init rs en d4 d5 d6 d7 s) = rs" "en_pin (lcd_init rs en d4 d5 d6 d7 s) = en"
  "dat4_pin (lcd_init rs en d4 d5 d6 d7 s) = d4" "dat5_pin (lcd_init rs en d4 d5 d6 d7 s) = d5"
  "dat6_pin (lcd_init rs en d4 d5 d6 d7 s) = d6" "dat7_pin (lcd_init rs en d4 d5 d6 d7 s) = d7"
  by (simp_all add: lcd_init_def Let_def lcd_display_on_def lcd_clear_def
      delay_ms_def delay_us_def pin_write_def lcd_consts)

lemma ready_state_fields:
  "display_control ready_state = 0x04" "display_mode ready_state = 0x02"
  "sent ready_state = [(0x28, 0), (0x0C, 0), (0x01, 0), (0x06, 0)]"
  "rs_pin ready_state = 11" "en_pin ready_state = 12" "dat4_pin ready_state = 4"
  "dat5_pin ready_state = 5" "dat6_pin ready_state = 6" "dat7_pin ready_state = 7"
  "display_function ready_state = 0x08"
  by (simp_all add: ready_state_def lcd_init_fields power_on_state_def)

theorem lcd_cursor_on_twice_witness:
  "display_control ready_state AND 0xF8 = 0
   \<and> sent (lcd_cursor_off (lcd_cursor_on (lcd_cursor_on ready_state))) =
       sent ready_state @ [(0x0E, 0), (0x0E, 0), (0x0C, 0)]
   \<and> is_display_control (0x0E, 0) \<and> is_display_control (0x0C, 0)
   \<and> bit (0x0E :: u8) 1 \<and> \<not> bit (0x0C :: u8) 1"
  using lcd_cursor_on_twice [of ready_state]
  by (simp add: Let_def ready_state_fields lcd_consts)

subsection \<open>C7: writing a string\<close>

lemma lcd_write_char_fields [simp]:
  "rs_pin (lcd_write_char c s) = rs_pin s" "en_pin (lcd_write_char c s) = en_pin s"
  "dat4_pin (lcd_write_char c s) = dat4_pin s" "dat5_pin (lcd_write_char c s) = dat5_pin s"
  "dat6_pin (lcd_write_char c s) = dat6_pin s" "dat7_pin (lcd_write_char c s) = dat7_pin s"
  "display_function (lcd_write_char c s) = display_function s"
  "display_control (lcd_write_char c s) = display_control s"
  "display_mode (lcd_write_char c s) = display_mode s"
  "sent (lcd_write_char c s) = sent s @ [(c, 1)]"
  "trace (lcd_write_char c s) = trace s @ send_events s c 1"
  by (simp_all add: lcd_write_char_def lcd_write_def trace_lcd_send)

lemma write_chars_fields:
  "rs_pin (foldl (\<lambda>s c. lcd_write_char c s) s cs) = rs_pin s"
  "en_pin (foldl (\<lambda>s c. lcd_write_char c s) s cs) = en_pin s"
  "dat4_pin (foldl (\<lambda>s c. lcd_write_char c s) s cs) = dat4_pin s"
  "dat5_pin (foldl (\<lambda>s c. lcd_write_char c s) s cs) = dat5_pin s"
  "dat6_pin (foldl (\<lambda>s c. lcd_write_char c s) s cs) = dat6_pin s"
  "dat7_pin (foldl (\<lambda>s c. lcd_write_char c s) s cs) = dat7_pin s"
  "display_function (foldl (\<lambda>s c. lcd_write_char c s) s cs) = display_function s"
  "display_control (foldl (\<lambda>s c. lcd_write_char c s) s cs) = display_control s"
  "display_mode (foldl (\<lambda>s c. lcd_write_char c s) s cs) = display_mode s"
  "sent (foldl (\<lambda>s c. lcd_write_char c s) s cs) = sent s @ map (\<lambda>c. (c, 1)) cs"
  by (induction cs arbitrary: s; simp)+

lemma write_chars_trace:
  "trace (foldl (\<lambda>s c. lcd_write_char c s) s cs) =
     trace s @ concat (map (\<lambda>c. send_events s c 1) cs)"
proof (induction cs arbitrary: s)
  case Nil
  show ?case by simp
next
  case (Cons c cs)
  have "send_events (lcd_write_char c s) = send_events s"
    by (intro ext send_events_cong) simp_all
  with Cons [of "lcd_write_char c s"] show ?case by simp
qed

lemma lcd_write_string_from_terminated:
  assumes "0 \<notin> set cs" and "length cs < 2 ^ 32" and "k \<le> length cs"
  shows "lcd_write_string_from (of_nat k) (cs @ 0 # rest) s =
     Some (foldl (\<lambda>s c. lcd_write_char c s) s (drop k cs))"
  using assms(3)
proof (induction "length cs - k" arbitrary: k s)
  case 0
  then have k: "k = length cs" by simp
  have u: "unat (of_nat (length cs) :: u32) = length cs"
    using assms(2) by (simp add: unat_of_nat)
  show ?case
    unfolding k by (subst lcd_write_string_from.simps) (simp add: u)
next
  case (Suc n)
  then have k: "k < length cs" by simp
  have u: "unat (of_nat k :: u32) = k"
    using assms(2) k by (simp add: unat_of_nat)
  have nz: "cs ! k \<noteq> 0"
    using assms(1) k by (metis nth_mem)
  have step: "lcd_write_string_from (of_nat (Suc k)) (cs @ 0 # rest) (lcd_write_char (cs ! k) s) =
      Some (foldl (\<lambda>s c. lcd_write_char c s) (lcd_write_char (cs ! k) s) (drop (Suc k) cs))"
    using Suc.hyps(2) k by (intro Suc.hyps(1)) simp_all
  have d: "drop k cs = cs ! k # drop (Suc k) cs"
    using k by (simp add: Cons_nth_drop_Suc)
  have step': "lcd_write_string_from (of_nat k + 1) (cs @ 0 # rest) (lcd_write_char (cs ! k) s) =
      Some (foldl (\<lambda>s c. lcd_write_char c s) (lcd_write_char (cs ! k) s) (drop (Suc k) cs))"
    using step by (simp add: add.commute)
  have lt: "k < length (cs @ 0 # rest)" using k by simp
  have nth: "(cs @ 0 # rest) ! k = cs ! k" using k by (simp add: nth_append)
  show ?case
    by (subst lcd_write_string_from.simps) (simp only: u lt nth nz if_True if_False step' d foldl_Cons)
qed

lemma lcd_write_string_terminated:
  assumes "0 \<notin> set cs" and "length cs < 2 ^ 32"
  shows "lcd_write_string (cs @ 0 # rest) s = Some (foldl (\<lambda>s c. lcd_write_char c s) s cs)"
  using lcd_write_string_from_terminated [OF assms, of 0 rest s]
  by (simp add: lcd_write_string_def)

text \<open>
  C7. For a string whose characters \<open>cs\<close> are followed by a null (within the reach of the
  32-bit index), \<open>lcd_write_string\<close> returns, and what it emits is exactly one transfer
  with register select 1 per character of \<open>cs\<close>, in order, carrying that character's byte;
  nothing is emitted for the null or for what follows it. In particular, for "Hi" it makes
  the two transfers 0x48 and 0x69, each as register select 1, high nibble, low nibble:
  nibbles 4, 8 and then 6, 9.
\<close>

theorem lcd_write_string_sends_each_char:
  "(0 \<notin> set cs \<and> length cs < 2 ^ 32 \<longrightarrow>
      map_option trace (lcd_write_string (cs @ 0 # rest) s) =
        Some (trace s @ concat (map (\<lambda>c. send_events s c 1) cs))
      \<and> map_option sent (lcd_write_string (cs @ 0 # rest) s) =
        Some (sent s @ map (\<lambda>c. (c, 1)) cs))
   \<and> map_option trace (lcd_write_string [0x48, 0x69, 0] s) =
       Some (trace s @
         [PinWrite (rs_pin s) 1] @ nibble_events s 0x4 @ nibble_events s 0x8 @
         [PinWrite (rs_pin s) 1] @ nibble_events s 0x6 @ nibble_events s 0x9)
   \<and> map_option sent (lcd_write_string [0x48, 0x69, 0] s) =
       Some (sent s @ [(0x48, 1), (0x69, 1)])"
proof (intro conjI impI)
  assume a: "0 \<notin> set cs \<and> length cs < 2 ^ 32"
  then have r: "lcd_write_string (cs @ 0 # rest) s =
      Some (foldl (\<lambda>s c. lcd_write_char c s) s cs)"
    by (intro lcd_write_string_terminated) simp_all
  show "map_option trace (lcd_write_string (cs @ 0 # rest) s) =
        Some (trace s @ concat (map (\<lambda>c. send_events s c 1) cs))"
    by (simp add: r write_chars_trace)
  show "map_option sent (lcd_write_string (cs @ 0 # rest) s) =
        Some (sent s @ map (\<lambda>c. (c, 1)) cs)"
    by (simp add: r write_chars_fields)
next
  have hi: "lcd_write_string ([0x48, 0x69] @ 0 # []) s =
      Some (foldl (\<lambda>s c. lcd_write_char c s) s [0x48, 0x69])"
    by (rule lcd_write_string_terminated) simp_all
  have n: "drop_bit 4 (0x48 :: u8) AND 0xF = 0x4" "(0x48 :: u8) AND 0xF = 0x8"
    "drop_bit 4 (0x69 :: u8) AND 0xF = 0x6" "(0x69 :: u8) AND 0xF = 0x9"
    by (simp_all add: drop_bit_eq_div)
  show "map_option trace (lcd_write_string [0x48, 0x69, 0] s) =
       Some (trace s @
         [PinWrite (rs_pin s) 1] @ nibble_events s 0x4 @ nibble_events s 0x8 @
         [PinWrite (rs_pin s) 1] @ nibble_events s 0x6 @ nibble_events s 0x9)"
    using hi by (simp add: send_events_def n nibble_events_cong [of "lcd_write_char c s" s for c])
  show "map_option sent (lcd_write_string [0x48, 0x69, 0] s) =
       Some (sent s @ [(0x48, 1), (0x69, 1)])"
    using hi by simp
qed

theorem lcd_write_string_sends_each_char_witness:
  "0 \<notin> set [0x41 :: u8] \<and> length [0x41 :: u8] < 2 ^ 32
   \<and> map_option sent (lcd_write_string [0x41, 0, 0x42] wired_state) = Some [(0x41, 1)]
   \<and> map_option trace (lcd_write_string [0x41, 0, 0x42] wired_state) =
       Some ([PinWrite 11 1,
        PinWrite 4 0, PinWrite 5 0, PinWrite 6 1, PinWrite 7 0,
        PinWrite 12 0, DelayUs 1, PinWrite 12 1, DelayUs 1, PinWrite 12 0, DelayUs 100,
        PinWrite 4 1, PinWrite 5 0, PinWrite 6 0, PinWrite 7 0,
        PinWrite 12 0, DelayUs 1, PinWrite 12 1, DelayUs 1, PinWrite 12 0, DelayUs 100])"
  using lcd_write_string_sends_each_char [of "[0x41]" "[0x42]" wired_state]
  by (simp add: wired_state_def power_on_state_def send_events_def nibble_events_def
      pulse_events_def level_def bit_simps drop_bit_eq_div)

subsection \<open>C10: what the other operations leave alone\<close>

lemma driver_fields_simps [simp]:
  "driver_fields (lcd_command c s) = driver_fields s"
  "driver_fields (lcd_write_char ch s) = driver_fields s"
  "driver_fields (lcd_clear s) = driver_fields s"
  "driver_fields (lcd_home s) = driver_fields s"
  "driver_fields (lcd_shift_left s) = driver_fields s"
  "driver_fields (lcd_shift_right s) = driver_fields s"
  by (simp_all add: driver_fields_def)
     (simp_all add: lcd_clear_def lcd_home_def lcd_shift_left_def lcd_shift_right_def
       Let_def delay_ms_def)

lemma lcd_write_string_from_frame:
  assumes r: "lcd_write_string_from i str s = Some s'"
  shows "driver_fields s' = driver_fields s"
proof (rule lcd_write_string_from.raw_induct
    [where P = "\<lambda>i str s s'. driver_fields s' = driver_fields s", OF _ r])
  fix f :: "u32 \<Rightarrow> u8 list \<Rightarrow> lcd_state \<Rightarrow> lcd_state option"
    and i :: u32 and str :: "u8 list" and s s' :: lcd_state
  assume ih: "\<And>i str s s'. f i str s = Some s' \<Longrightarrow> driver_fields s' = driver_fields s"
    and body: "(if unat i < length str
      then if str ! unat i = 0 then Some s
           else f (i + 1) str (lcd_write_char (str ! unat i) s)
      else None) = Some s'"
  show "driver_fields s' = driver_fields s"
  proof (cases "str ! unat i = 0")
    case True
    with body show ?thesis by (simp split: if_splits)
  next
    case False
    with body have "f (i + 1) str (lcd_write_char (str ! unat i) s) = Some s'"
      by (simp split: if_splits)
    from ih [OF this] show ?thesis by simp
  qed
qed

lemma lcd_write_string_frame:
  "lcd_write_string str s = Some s' \<Longrightarrow> driver_fields s' = driver_fields s"
  unfolding lcd_write_string_def by (rule lcd_write_string_from_frame)

lemma lcd_write_string_returns:
  assumes "0 \<in> set str" and "length (takeWhile (\<lambda>c. c \<noteq> 0) str) < 2 ^ 32"
  shows "lcd_write_string str s =
     Some (foldl (\<lambda>s c. lcd_write_char c s) s (takeWhile (\<lambda>c. c \<noteq> 0) str))"
proof -
  let ?cs = "takeWhile (\<lambda>c. c \<noteq> 0) str"
  let ?ds = "dropWhile (\<lambda>c. c \<noteq> 0) str"
  from assms(1) have "?ds \<noteq> []" by simp
  moreover from this have "hd ?ds = 0" using hd_dropWhile [of "\<lambda>c. c \<noteq> 0" str] by simp
  ultimately have "?ds = 0 # tl ?ds" by (cases ?ds) auto
  then have str: "str = ?cs @ 0 # tl ?ds"
    by (metis takeWhile_dropWhile_id)
  have nz: "0 \<notin> set ?cs" by (auto dest: set_takeWhileD)
  show ?thesis
    by (subst str) (rule lcd_write_string_terminated [OF nz assms(2)])
qed

lemma lcd_set_cursor_frame:
  "map_option driver_fields (lcd_set_cursor col row s) = Some (driver_fields s)"
proof -
  have "lcd_set_cursor col row s =
     Some (lcd_command (LCD_SETDDRAMADDR OR
       (ucast col + row_offsets ! min (unat row) (min (length row_offsets - 1) (nat NUM_LINES - 1)))) s)"
    unfolding lcd_set_cursor_def by (rule lcd_set_cursor_lines_clamp) (simp add: NUM_LINES_def)
  then show ?thesis by simp
qed

lemma write_chars_frame:
  "driver_fields (foldl (\<lambda>s c. lcd_write_char c s) s cs) = driver_fields s"
  by (simp add: driver_fields_def write_chars_fields)

lemma lcd_write_string_padded_frame:
  assumes "length txt \<le> 9"
  shows "map_option driver_fields (lcd_write_string (txt @ [0]) s) = Some (driver_fields s)"
proof -
  have "length (takeWhile (\<lambda>c. c \<noteq> 0) (txt @ [0])) \<le> length (txt @ [0])"
    by (rule length_takeWhile_le)
  with assms have "length (takeWhile (\<lambda>c. c \<noteq> 0) (txt @ [0])) < 2 ^ 32" by simp
  then have "lcd_write_string (txt @ [0]) s =
      Some (foldl (\<lambda>s c. lcd_write_char c s) s (takeWhile (\<lambda>c. c \<noteq> 0) (txt @ [0])))"
    by (intro lcd_write_string_returns) simp_all
  then show ?thesis by (simp add: write_chars_frame)
qed

lemma length_dec_digits:
  "0 < k \<Longrightarrow> n < 10 ^ k \<Longrightarrow> length (dec_digits n) \<le> k"
proof (induction k arbitrary: n)
  case 0
  then show ?case by simp
next
  case (Suc k)
  show ?case
  proof (cases "n < 10")
    case True
    then show ?thesis by (subst dec_digits.simps) simp
  next
    case False
    with Suc.prems have k: "0 < k" by (cases k) auto
    from Suc.prems have "n div 10 < 10 ^ k" by (simp add: less_mult_imp_div_less mult.commute)
    from Suc.IH [OF k this] False show ?thesis by (subst dec_digits.simps) simp
  qed
qed

lemma sprintf_d_fits:
  assumes "unat num < 1000000000"
  shows "length (sprintf_d num) \<le> 9"
proof -
  have u: "uint num = int (unat num)" by simp
  with assms have "uint num < 2147483648" by linarith
  then have "uint num < 2 ^ 31" by simp
  moreover have "- (2 ^ 31) \<le> uint num"
  proof -
    have "(0 :: int) \<le> uint num" by (rule uint_ge_0)
    moreover have "- (2 ^ 31) \<le> (0 :: int)" by simp
    ultimately show ?thesis by (rule order_trans [rotated])
  qed
  ultimately have "signed_take_bit 31 (uint num) = uint num"
    by (rule signed_take_bit_int_eq_self [rotated])
  then have "sint num = uint num" by (simp only: sint_uint) simp
  with u have s: "sint num = int (unat num)" by (simp only:)
  have "\<not> sint num < 0" unfolding s by simp
  then have "sprintf_d num = dec_digits (unat num)" unfolding sprintf_d_def s by simp
  moreover have "length (dec_digits (unat num)) \<le> 9"
    using assms by (intro length_dec_digits) simp_all
  ultimately show ?thesis by simp
qed

lemma exec_frame:
  assumes "exec c s = Some s'" and "\<not> is_init c" and "\<not> is_on_off_toggle c"
    and "\<not> is_direction_toggle c"
  shows "driver_fields s' = driver_fields s"
proof (cases c)
  case (SetCursor col row)
  with assms(1) lcd_set_cursor_frame [of col row s] show ?thesis by simp
next
  case (WriteString str)
  with assms(1) show ?thesis by (simp add: lcd_write_string_frame)
next
  case (WriteInt num)
  with assms(1) show ?thesis
    by (simp add: lcd_write_int_def Let_def lcd_write_string_frame split: if_splits)
next
  case (WriteFloat formatted)
  with assms(1) show ?thesis
    by (simp add: lcd_write_float_def lcd_write_string_frame split: if_splits)
qed (use assms in auto)

text \<open>
  C10, in the form that holds on the code. From every starting state, \<open>lcd_clear\<close>,
  \<open>lcd_home\<close>, \<open>lcd_shift_left\<close>, \<open>lcd_shift_right\<close>, \<open>lcd_set_cursor\<close> (every
  column and row) and \<open>lcd_write_char\<close>
  (every character) return and leave \<open>display_function\<close>, \<open>display_control\<close>,
  \<open>display_mode\<close> and the six pin identifiers unchanged; so do \<open>lcd_write_string\<close> for
  every string with a terminating null, and \<open>lcd_write_int\<close> and \<open>lcd_write_float\<close>
  whenever the formatted text has at most 9 characters, so that it fits the 10-byte buffer
  with its terminator; for \<open>lcd_write_int\<close> that is the case for every number below
  1000000000. A call that changes one of these fields is \<open>lcd_init\<close>, one of the
  eight on/off operations, or one of the two direction operations \<open>lcd_right_to_left\<close> and
  \<open>lcd_left_to_right\<close>.
\<close>

theorem only_init_and_toggles_write_driver_fields:
  "(exec c s = Some s' \<and> driver_fields s' \<noteq> driver_fields s \<longrightarrow>
      is_init c \<or> is_on_off_toggle c \<or> is_direction_toggle c)
   \<and> driver_fields (lcd_clear s) = driver_fields s
   \<and> driver_fields (lcd_home s) = driver_fields s
   \<and> driver_fields (lcd_shift_left s) = driver_fields s
   \<and> driver_fields (lcd_shift_right s) = driver_fields s
   \<and> map_option driver_fields (lcd_set_cursor col row s) = Some (driver_fields s)
   \<and> driver_fields (lcd_write_char ch s) = driver_fields s
   \<and> (0 \<in> set str \<and> length (takeWhile (\<lambda>c. c \<noteq> 0) str) < 2 ^ 32 \<longrightarrow>
        map_option driver_fields (lcd_write_string str s) = Some (driver_fields s))
   \<and> (length (sprintf_d num) \<le> 9 \<longrightarrow>
        map_option driver_fields (lcd_write_int num s) = Some (driver_fields s))
   \<and> (length formatted \<le> 9 \<longrightarrow>
        map_option driver_fields (lcd_write_float formatted s) = Some (driver_fields s))
   \<and> (unat num < 1000000000 \<longrightarrow> length (sprintf_d num) \<le> 9)"
proof (intro conjI impI)
  assume "exec c s = Some s' \<and> driver_fields s' \<noteq> driver_fields s"
  then show "is_init c \<or> is_on_off_toggle c \<or> is_direction_toggle c"
    using exec_frame [of c s s'] by blast
next
  assume "0 \<in> set str \<and> length (takeWhile (\<lambda>c. c \<noteq> 0) str) < 2 ^ 32"
  then have "lcd_write_string str s =
      Some (foldl (\<lambda>s c. lcd_write_char c s) s (takeWhile (\<lambda>c. c \<noteq> 0) str))"
    by (intro lcd_write_string_returns) simp_all
  then show "map_option driver_fields (lcd_write_string str s) = Some (driver_fields s)"
    by (simp add: write_chars_frame)
next
  assume "length (sprintf_d num) \<le> 9"
  then show "map_option driver_fields (lcd_write_int num s) = Some (driver_fields s)"
    by (simp add: lcd_write_int_def Let_def lcd_write_string_padded_frame)
next
  assume "length formatted \<le> 9"
  then show "map_option driver_fields (lcd_write_float formatted s) = Some (driver_fields s)"
    by (simp add: lcd_write_float_def lcd_write_string_padded_frame)
next
  assume "unat num < 1000000000"
  then show "length (sprintf_d num) \<le> 9" by (rule sprintf_d_fits)
qed (simp_all add: lcd_set_cursor_frame)

lemma sprintf_d_examples:
  "sprintf_d 120 = [0x31, 0x32, 0x30]"
  "sprintf_d 1000000000 = [0x31, 0x30, 0x30, 0x30, 0x30, 0x30, 0x30, 0x30, 0x30, 0x30]"
  by (simp_all add: sprintf_d_def dec_digits.simps)

lemma right_to_left_fields:
  "display_mode (lcd_right_to_left s) = display_mode s AND NOT LCD_ENTRYLEFT"
  by (simp add: lcd_right_to_left_def Let_def)

text \<open>
  C10 as stated fails on the code: \<open>lcd_right_to_left\<close>, which is neither \<open>lcd_init\<close> nor
  one of the eight on/off operations, changes \<open>display_mode\<close> from 0x02 to 0x00 in the
  state after initialisation; and \<open>lcd_write_int(1000000000)\<close> formats ten characters,
  which with the terminator do not fit \<open>char str[10]\<close>, so the call has no defined result.
\<close>

theorem direction_call_writes_display_mode_counterexample:
  "\<not> is_init RightToLeft \<and> \<not> is_on_off_toggle RightToLeft
   \<and> exec RightToLeft ready_state = Some (lcd_right_to_left ready_state)
   \<and> display_mode ready_state = 0x02
   \<and> display_mode (lcd_right_to_left ready_state) = 0x00
   \<and> driver_fields (lcd_right_to_left ready_state) \<noteq> driver_fields ready_state
   \<and> exec (WriteInt 1000000000) ready_state = None"
  by (simp add: driver_fields_def right_to_left_fields ready_state_fields lcd_consts
      lcd_write_int_def sprintf_d_examples)

theorem only_init_and_toggles_write_driver_fields_witness:
  "exec CursorOn ready_state = Some (lcd_cursor_on ready_state)
   \<and> driver_fields (lcd_cursor_on ready_state) \<noteq> driver_fields ready_state
   \<and> is_on_off_toggle CursorOn
   \<and> 0 \<in> set [0x48, 0x69, 0 :: u8]
   \<and> length (takeWhile (\<lambda>c. c \<noteq> 0) [0x48, 0x69, 0 :: u8]) < 2 ^ 32
   \<and> map_option driver_fields (lcd_write_string [0x48, 0x69, 0] ready_state) =
       Some (driver_fields ready_state)
   \<and> length (sprintf_d 120) \<le> 9
   \<and> map_option driver_fields (lcd_write_int 120 ready_state) = Some (driver_fields ready_state)
   \<and> length [0x33, 0x2E, 0x31, 0x34, 0x31, 0x36 :: u8] \<le> 9
   \<and> map_option driver_fields
         (lcd_write_float [0x33, 0x2E, 0x31, 0x34, 0x31, 0x36] ready_state) =
       Some (driver_fields ready_state)"
proof -
  have d: "driver_fields (lcd_cursor_on ready_state) \<noteq> driver_fields ready_state"
    by (simp add: driver_fields_def cursor_on_fields ready_state_fields lcd_consts)
  note th = only_init_and_toggles_write_driver_fields
    [where c = CursorOn and s = ready_state and s' = "lcd_cursor_on ready_state"
       and str = "[0x48, 0x69, 0]" and num = 120
       and formatted = "[0x33, 0x2E, 0x31, 0x34, 0x31, 0x36]"]
  from th d show ?thesis
    by (simp add: sprintf_d_examples)
qed

subsection \<open>Reading the recording as the controller does\<close>

lemma if_bit: "bit (if c then a else (0 :: u8)) k \<longleftrightarrow> c \<and> bit a k"
  by simp

lemma nibble_value:
  "(if bit (n :: u8) 0 then 1 else 0) OR (if bit n 1 then 2 else 0) OR
   (if bit n 2 then 4 else 0) OR (if bit n 3 then 8 else (0 :: u8)) = n AND 0xF"
  apply (rule byte_eqI)
  apply (simp_all only: bit_or_iff bit_and_iff if_bit)
  apply (simp_all add: bit_simps)
  done

lemma byte_of_nibbles: "push_bit 4 (drop_bit 4 v AND 0xF) OR (v AND 0xF) = (v :: u8)"
  by (rule byte_eqI) (simp_all add: bit_simps)

lemma bus_step_pins:
  assumes "pins_distinct s"
  shows "bus_step s b (PinWrite (rs_pin s) v) = b\<lparr>rs_line := v \<noteq> 0\<rparr>"
    and "bus_step s b (PinWrite (dat4_pin s) v) = b\<lparr>d4_line := v \<noteq> 0\<rparr>"
    and "bus_step s b (PinWrite (dat5_pin s) v) = b\<lparr>d5_line := v \<noteq> 0\<rparr>"
    and "bus_step s b (PinWrite (dat6_pin s) v) = b\<lparr>d6_line := v \<noteq> 0\<rparr>"
    and "bus_step s b (PinWrite (dat7_pin s) v) = b\<lparr>d7_line := v \<noteq> 0\<rparr>"
    and "bus_step s b (PinWrite (en_pin s) v) =
      (if en_line b \<and> v = 0
       then b\<lparr>latched := latched b @ [(rs_line b, nibble_on b)], en_line := False\<rparr>
       else b\<lparr>en_line := v \<noteq> 0\<rparr>)"
proof -
  from assms have ne:
    "rs_pin s \<noteq> en_pin s" "rs_pin s \<noteq> dat4_pin s" "rs_pin s \<noteq> dat5_pin s"
    "rs_pin s \<noteq> dat6_pin s" "rs_pin s \<noteq> dat7_pin s"
    "en_pin s \<noteq> dat4_pin s" "en_pin s \<noteq> dat5_pin s" "en_pin s \<noteq> dat6_pin s"
    "en_pin s \<noteq> dat7_pin s"
    "dat4_pin s \<noteq> dat5_pin s" "dat4_pin s \<noteq> dat6_pin s" "dat4_pin s \<noteq> dat7_pin s"
    "dat5_pin s \<noteq> dat6_pin s" "dat5_pin s \<noteq> dat7_pin s" "dat6_pin s \<noteq> dat7_pin s"
    by (simp_all add: pins_distinct_def)
  note ne = ne ne [symmetric]
  show "bus_step s b (PinWrite (rs_pin s) v) = b\<lparr>rs_line := v \<noteq> 0\<rparr>"
    by (simp add: ne Let_def)
  show "bus_step s b (PinWrite (dat4_pin s) v) = b\<lparr>d4_line := v \<noteq> 0\<rparr>"
    by (simp add: ne Let_def)
  show "bus_step s b (PinWrite (dat5_pin s) v) = b\<lparr>d5_line := v \<noteq> 0\<rparr>"
    by (simp add: ne Let_def)
  show "bus_step s b (PinWrite (dat6_pin s) v) = b\<lparr>d6_line := v \<noteq> 0\<rparr>"
    by (simp add: ne Let_def)
  show "bus_step s b (PinWrite (dat7_pin s) v) = b\<lparr>d7_line := v \<noteq> 0\<rparr>"
    by (simp add: ne Let_def)
  show "bus_step s b (PinWrite (en_pin s) v) =
      (if en_line b \<and> v = 0
       then b\<lparr>latched := latched b @ [(rs_line b, nibble_on b)], en_line := False\<rparr>
       else b\<lparr>en_line := v \<noteq> 0\<rparr>)"
    by (simp add: ne Let_def)
qed

lemma level_nonzero: "level x \<noteq> 0 \<longleftrightarrow> x" "level x = 0 \<longleftrightarrow> \<not> x"
  by (simp_all add: level_def)

lemma bus_pulse:
  assumes "pins_distinct s" and "\<not> en_line b"
  shows "foldl (bus_step s) b (pulse_events s) =
      b\<lparr>latched := latched b @ [(rs_line b, nibble_on b)], en_line := False\<rparr>"
  using assms(2)
  by (simp add: pulse_events_def bus_step_pins [OF assms(1)] nibble_on_def
      del: bus_step.simps(1))

lemma bus_nibble:
  assumes "pins_distinct s" and "\<not> en_line b"
  shows "latched (foldl (bus_step s) b (nibble_events s n)) =
      latched b @ [(rs_line b, n AND 0xF)]"
    and "\<not> en_line (foldl (bus_step s) b (nibble_events s n))"
    and "rs_line (foldl (bus_step s) b (nibble_events s n)) = rs_line b"
proof -
  let ?b = "b\<lparr>d4_line := bit n 0, d5_line := bit n 1, d6_line := bit n 2, d7_line := bit n 3\<rparr>"
  have d: "foldl (bus_step s) b
      [PinWrite (dat4_pin s) (level (bit n 0)), PinWrite (dat5_pin s) (level (bit n 1)),
       PinWrite (dat6_pin s) (level (bit n 2)), PinWrite (dat7_pin s) (level (bit n 3))] = ?b"
    by (simp add: bus_step_pins [OF assms(1)] level_nonzero del: bus_step.simps(1))
  have e: "\<not> en_line ?b" using assms(2) by simp
  have sel: "d4_line ?b = bit n 0" "d5_line ?b = bit n 1" "d6_line ?b = bit n 2"
    "d7_line ?b = bit n 3"
    by simp_all
  have v: "nibble_on ?b = n AND 0xF"
    unfolding nibble_on_def sel by (rule nibble_value)
  have r: "foldl (bus_step s) b (nibble_events s n) =
      ?b\<lparr>latched := latched ?b @ [(rs_line ?b, nibble_on ?b)], en_line := False\<rparr>"
    unfolding nibble_events_def foldl_append d by (rule bus_pulse [OF assms(1) e])
  show "latched (foldl (bus_step s) b (nibble_events s n)) =
      latched b @ [(rs_line b, n AND 0xF)]"
    unfolding r v by simp
  show "\<not> en_line (foldl (bus_step s) b (nibble_events s n))"
    unfolding r using assms(2) by simp
  show "rs_line (foldl (bus_step s) b (nibble_events s n)) = rs_line b"
    unfolding r by simp
qed

lemma bus_step_cong:
  assumes "rs_pin s' = rs_pin s" "en_pin s' = en_pin s" "dat4_pin s' = dat4_pin s"
    "dat5_pin s' = dat5_pin s" "dat6_pin s' = dat6_pin s" "dat7_pin s' = dat7_pin s"
  shows "bus_step s' = bus_step s"
proof (intro ext)
  fix b e
  show "bus_step s' b e = bus_step s b e"
    by (cases e) (simp_all only: bus_step.simps assms)
qed

lemma bus_run_cong:
  assumes "rs_pin s' = rs_pin s" "en_pin s' = en_pin s" "dat4_pin s' = dat4_pin s"
    "dat5_pin s' = dat5_pin s" "dat6_pin s' = dat6_pin s" "dat7_pin s' = dat7_pin s"
  shows "bus_run s' = bus_run s"
  by (intro ext) (simp only: bus_run_def bus_step_cong [OF assms])

lemma pins_distinct_cong:
  assumes "rs_pin s' = rs_pin s" "en_pin s' = en_pin s" "dat4_pin s' = dat4_pin s"
    "dat5_pin s' = dat5_pin s" "dat6_pin s' = dat6_pin s" "dat7_pin s' = dat7_pin s"
  shows "pins_distinct s' = pins_distinct s"
  by (simp only: pins_distinct_def assms)

lemma bus_run_append: "bus_run s (es @ fs) = foldl (bus_step s) (bus_run s es) fs"
  by (simp add: bus_run_def)

lemma ucast_mode_nonzero: "(ucast (m :: u8) :: u32) \<noteq> 0 \<longleftrightarrow> m \<noteq> 0"
proof -
  have "unat m < 2 ^ 8" using unsigned_less [of m] by simp
  then have "unat m < 2 ^ 32" by simp
  then have "unat (ucast m :: u32) = unat m"
    by (simp add: unsigned_ucast_eq take_bit_nat_eq_self)
  then have "(ucast m :: u32) = 0 \<longleftrightarrow> m = 0"
    by (simp only: unat_eq_0 [symmetric])
  then show ?thesis by simp
qed

lemma bus_send:
  assumes "pins_distinct s" and "\<not> en_line b"
  shows "latched (foldl (bus_step s) b (send_events s v m)) = latched b @ nibbles_of (v, m)"
    and "\<not> en_line (foldl (bus_step s) b (send_events s v m))"
proof -
  let ?b1 = "b\<lparr>rs_line := m \<noteq> 0\<rparr>"
  let ?b2 = "foldl (bus_step s) ?b1 (nibble_events s (drop_bit 4 v AND 0xF))"
  have e1: "\<not> en_line ?b1" using assms(2) by simp
  note n1 = bus_nibble [OF assms(1) e1, of "drop_bit 4 v AND 0xF"]
  note n2 = bus_nibble [OF assms(1) n1(2), of "v AND 0xF"]
  have f: "foldl (bus_step s) b (send_events s v m) =
      foldl (bus_step s) ?b2 (nibble_events s (v AND 0xF))"
    by (simp add: send_events_def bus_step_pins(1) [OF assms(1)] ucast_mode_nonzero
        del: bus_step.simps(1))
  have idem: "(x AND 0xF) AND 0xF = x AND 0xF" for x :: u8
    by (simp add: and.assoc)
  show "latched (foldl (bus_step s) b (send_events s v m)) = latched b @ nibbles_of (v, m)"
    unfolding f n2(1) n1(1) n1(3) by (simp add: nibbles_of_def idem)
  show "\<not> en_line (foldl (bus_step s) b (send_events s v m))"
    unfolding f by (rule n2(2))
qed

lemma bus_ok_send:
  assumes "bus_ok t0 l0 s"
  shows "bus_ok t0 l0 (lcd_send v m s)"
proof -
  from assms have d: "pins_distinct s" and t: "t0 \<le> length (trace s)"
    and l: "l0 \<le> length (sent s)"
    and e: "\<not> en_line (bus_run s (drop t0 (trace s)))"
    and n: "latched (bus_run s (drop t0 (trace s))) =
        [(False, 3), (False, 3), (False, 3), (False, 2)] @
        concat (map nibbles_of (drop l0 (sent s)))"
    and c: "filter is_display_control (drop l0 (sent s)) \<noteq> []"
    and m: "filter is_entry_mode_set (drop l0 (sent s)) \<noteq> []"
    by (simp_all add: bus_ok_def)
  have run: "bus_run (lcd_send v m s) = bus_run s"
    by (rule bus_run_cong) simp_all
  have dis: "pins_distinct (lcd_send v m s)"
    using d by (simp add: pins_distinct_def)
  have tr: "drop t0 (trace (lcd_send v m s)) = drop t0 (trace s) @ send_events s v m"
    using t by (simp add: trace_lcd_send)
  have se: "drop l0 (sent (lcd_send v m s)) = drop l0 (sent s) @ [(v, m)]"
    using l by simp
  show ?thesis
    unfolding bus_ok_def run tr se bus_run_append
    using dis t l c m bus_send [OF d e, of v m] n
    by (simp add: trace_lcd_send)
qed

lemma bus_ok_passive:
  "bus_ok t0 l0 s \<Longrightarrow> bus_ok t0 l0 (delay_ms t s)"
  "bus_ok t0 l0 (s\<lparr>display_control := x\<rparr>) = bus_ok t0 l0 s"
  "bus_ok t0 l0 (s\<lparr>display_mode := y\<rparr>) = bus_ok t0 l0 s"
proof -
  have r1: "bus_run (delay_ms t s) = bus_run s"
    by (rule bus_run_cong) (simp_all add: delay_ms_def)
  have r2: "bus_run (s\<lparr>display_control := x\<rparr>) = bus_run s"
    by (rule bus_run_cong) simp_all
  have r3: "bus_run (s\<lparr>display_mode := y\<rparr>) = bus_run s"
    by (rule bus_run_cong) simp_all
  show "bus_ok t0 l0 s \<Longrightarrow> bus_ok t0 l0 (delay_ms t s)"
    unfolding bus_ok_def r1
    by (simp add: delay_ms_def pins_distinct_def bus_run_append)
  show "bus_ok t0 l0 (s\<lparr>display_control := x\<rparr>) = bus_ok t0 l0 s"
    unfolding bus_ok_def r2 by (simp add: pins_distinct_def)
  show "bus_ok t0 l0 (s\<lparr>display_mode := y\<rparr>) = bus_ok t0 l0 s"
    unfolding bus_ok_def r3 by (simp add: pins_distinct_def)
qed

subsection \<open>C6: the state bytes mirror the last commands\<close>

lemma last_display_control_snoc:
  "last_display_control (log @ [x]) =
     (if is_display_control x then Some (fst x AND 0x07) else last_display_control log)"
  by (simp add: last_display_control_def Let_def)

lemma last_entry_mode_snoc:
  "last_entry_mode (log @ [x]) =
     (if is_entry_mode_set x then Some (fst x AND 0x03) else last_entry_mode log)"
  by (simp add: last_entry_mode_def Let_def)

lemma driver_inv_command_other:
  assumes "driver_inv s" and "c AND 0xF8 \<noteq> 0x08" and "c AND 0xFC \<noteq> 0x04"
  shows "driver_inv (lcd_command c s)"
  using assms
  by (simp add: driver_inv_def flags_only_def synced_def last_display_control_snoc
      last_entry_mode_snoc is_display_control_def is_entry_mode_set_def)

lemma driver_inv_write_char: "driver_inv s \<Longrightarrow> driver_inv (lcd_write_char c s)"
  by (simp add: driver_inv_def flags_only_def synced_def last_display_control_snoc
      last_entry_mode_snoc is_display_control_def is_entry_mode_set_def)

lemma driver_inv_control_update:
  assumes "driver_inv s" and "d AND 0xF8 = 0"
  shows "driver_inv (lcd_command (LCD_DISPLAYCONTROL OR d) (s\<lparr>display_control := d\<rparr>))"
  using assms control_facts(7,8,9) [OF assms(2)]
  by (simp add: driver_inv_def flags_only_def synced_def last_display_control_snoc
      last_entry_mode_snoc is_display_control_def is_entry_mode_set_def LCD_DISPLAYCONTROL_def)

lemma driver_inv_mode_update:
  assumes "driver_inv s" and "m AND 0xFC = 0"
  shows "driver_inv (lcd_command (LCD_ENTRYMODESET OR m) (s\<lparr>display_mode := m\<rparr>))"
  using assms mode_facts(5,6,7) [OF assms(2)]
  by (simp add: driver_inv_def flags_only_def synced_def last_display_control_snoc
      last_entry_mode_snoc is_display_control_def is_entry_mode_set_def LCD_ENTRYMODESET_def)

lemma driver_inv_delay_ms: "driver_inv (delay_ms t s) = driver_inv s"
  by (simp add: driver_inv_def flags_only_def synced_def delay_ms_def)

lemma driver_inv_toggles:
  assumes "driver_inv s"
  shows "driver_inv (lcd_display_off s)" "driver_inv (lcd_display_on s)"
    "driver_inv (lcd_cursor_on s)" "driver_inv (lcd_cursor_off s)"
    "driver_inv (lcd_blink_on s)" "driver_inv (lcd_blink_off s)"
    "driver_inv (lcd_autoscroll_on s)" "driver_inv (lcd_autoscroll_off s)"
    "driver_inv (lcd_right_to_left s)" "driver_inv (lcd_left_to_right s)"
proof -
  from assms have c: "display_control s AND 0xF8 = 0" and m: "display_mode s AND 0xFC = 0"
    by (simp_all add: driver_inv_def flags_only_def)
  note flag_defs = LCD_DISPLAYON_def LCD_CURSORON_def LCD_BLINKON_def
    LCD_ENTRYSHIFTINCREMENT_def LCD_ENTRYLEFT_def
  note cf = control_facts(1-6) [OF c] and mf = mode_facts(1-4) [OF m]
  show "driver_inv (lcd_display_off s)"
    unfolding lcd_display_off_def Let_def using cf
    by (simp add: driver_inv_control_update [OF assms] flag_defs)
  show "driver_inv (lcd_display_on s)"
    unfolding lcd_display_on_def Let_def using cf
    by (simp add: driver_inv_control_update [OF assms] flag_defs)
  show "driver_inv (lcd_cursor_on s)"
    unfolding lcd_cursor_on_def Let_def using cf
    by (simp add: driver_inv_control_update [OF assms] flag_defs)
  show "driver_inv (lcd_cursor_off s)"
    unfolding lcd_cursor_off_def Let_def using cf
    by (simp add: driver_inv_control_update [OF assms] flag_defs)
  show "driver_inv (lcd_blink_on s)"
    unfolding lcd_blink_on_def Let_def using cf
    by (simp add: driver_inv_control_update [OF assms] flag_defs)
  show "driver_inv (lcd_blink_off s)"
    unfolding lcd_blink_off_def Let_def using cf
    by (simp add: driver_inv_control_update [OF assms] flag_defs)
  show "driver_inv (lcd_autoscroll_on s)"
    unfolding lcd_autoscroll_on_def Let_def using mf
    by (simp add: driver_inv_mode_update [OF assms] flag_defs)
  show "driver_inv (lcd_autoscroll_off s)"
    unfolding lcd_autoscroll_off_def Let_def using mf
    by (simp add: driver_inv_mode_update [OF assms] flag_defs)
  show "driver_inv (lcd_right_to_left s)"
    unfolding lcd_right_to_left_def Let_def using mf
    by (simp add: driver_inv_mode_update [OF assms] flag_defs)
  show "driver_inv (lcd_left_to_right s)"
    unfolding lcd_left_to_right_def Let_def using mf
    by (simp add: driver_inv_mode_update [OF assms] flag_defs)
qed

lemma driver_inv_plain_commands:
  assumes "driver_inv s"
  shows "driver_inv (lcd_clear s)" "driver_inv (lcd_home s)" "driver_inv (lcd_shift_left s)" "driver_inv (lcd_shift_right s)"
  by (simp_all add: lcd_clear_def lcd_home_def lcd_shift_left_def lcd_shift_right_def Let_def
      driver_inv_delay_ms driver_inv_command_other [OF assms] lcd_consts)

lemma driver_inv_init: "driver_inv (lcd_init rs en d4 d5 d6 d7 s)"
  by (simp add: driver_inv_def flags_only_def synced_def lcd_init_fields
      last_display_control_def last_entry_mode_def Let_def
      is_display_control_def is_entry_mode_set_def)

lemma lcd_write_string_from_preserves:
  assumes r: "lcd_write_string_from i str s = Some s'"
    and q: "Q s" and step: "\<And>c s. Q s \<Longrightarrow> Q (lcd_write_char c s)"
  shows "Q s'"
proof -
  have "Q s \<longrightarrow> Q s'"
  proof (rule lcd_write_string_from.raw_induct
      [where P = "\<lambda>i str s s'. Q s \<longrightarrow> Q s'", OF _ r])
    fix f :: "u32 \<Rightarrow> u8 list \<Rightarrow> lcd_state \<Rightarrow> lcd_state option"
      and i :: u32 and str :: "u8 list" and s s' :: lcd_state
    assume ih: "\<And>i str s s'. f i str s = Some s' \<Longrightarrow> Q s \<longrightarrow> Q s'"
      and body: "(if unat i < length str
        then if str ! unat i = 0 then Some s
             else f (i + 1) str (lcd_write_char (str ! unat i) s)
        else None) = Some s'"
    show "Q s \<longrightarrow> Q s'"
    proof (cases "str ! unat i = 0")
      case True
      with body show ?thesis by (simp split: if_splits)
    next
      case False
      with body have "f (i + 1) str (lcd_write_char (str ! unat i) s) = Some s'"
        by (simp split: if_splits)
      from ih [OF this] step show ?thesis by blast
    qed
  qed
  with q show ?thesis by blast
qed

lemma driver_inv_exec:
  assumes "exec c s = Some s'" and "driver_inv s"
  shows "driver_inv s'"
proof (cases c)
  case (Init rs en d4 d5 d6 d7)
  with assms(1) show ?thesis by (auto simp: driver_inv_init)
next
  case (SetCursor col row)
  have "lcd_set_cursor col row s =
     Some (lcd_command (LCD_SETDDRAMADDR OR
       (ucast col + row_offsets ! min (unat row) (min (length row_offsets - 1) (nat NUM_LINES - 1)))) s)"
    unfolding lcd_set_cursor_def by (rule lcd_set_cursor_lines_clamp) (simp add: NUM_LINES_def)
  with assms(1) SetCursor have "s' = lcd_command (0x80 OR
       (ucast col + row_offsets ! min (unat row) (min (length row_offsets - 1) (nat NUM_LINES - 1)))) s"
    by (simp add: LCD_SETDDRAMADDR_def)
  then show ?thesis
    using driver_inv_command_other [OF assms(2) ddram_not_control] by simp
next
  case (WriteChar ch)
  with assms show ?thesis by (auto simp: driver_inv_write_char)
next
  case (WriteString str)
  with assms(1) have "lcd_write_string_from 0 str s = Some s'"
    by (simp add: lcd_write_string_def)
  then show ?thesis using assms(2) driver_inv_write_char
    by (rule lcd_write_string_from_preserves)
next
  case (WriteInt num)
  with assms(1) have "lcd_write_string_from 0 (sprintf_d num @ [0]) s = Some s'"
    by (simp add: lcd_write_int_def Let_def lcd_write_string_def split: if_splits)
  then show ?thesis using assms(2) driver_inv_write_char
    by (rule lcd_write_string_from_preserves)
next
  case (WriteFloat formatted)
  with assms(1) have "lcd_write_string_from 0 (formatted @ [0]) s = Some s'"
    by (simp add: lcd_write_float_def lcd_write_string_def split: if_splits)
  then show ?thesis using assms(2) driver_inv_write_char
    by (rule lcd_write_string_from_preserves)
qed (use assms driver_inv_toggles [OF assms(2)] driver_inv_plain_commands [OF assms(2)] in auto)

lemma driver_inv_run:
  "run cs s = Some s' \<Longrightarrow> driver_inv s \<Longrightarrow> driver_inv s'"
proof (induction cs arbitrary: s)
  case Nil
  then show ?case by simp
next
  case (Cons c cs)
  from Cons.prems(1) obtain s1 where e: "exec c s = Some s1" and r: "run cs s1 = Some s'"
    by (auto split: option.splits)
  from driver_inv_exec [OF e Cons.prems(2)] have "driver_inv s1" .
  with r show ?case by (rule Cons.IH)
qed

lemma run_after_init_synced:
  assumes "run (Init rs en d4 d5 d6 d7 # cs) s = Some s'"
  shows "driver_inv s'"
proof -
  from assms have "run cs (lcd_init rs en d4 d5 d6 d7 s) = Some s'" by simp
  then show ?thesis using driver_inv_init by (rule driver_inv_run)
qed

lemma lcd_init_held:
  "held (lcd_init rs en d4 d5 d6 d7 s) = held s @
     [(display_control s, display_mode s), (0x04, display_mode s), (0x04, display_mode s),
      (0x04, 0x02)]"
  by (simp add: lcd_init_def Let_def lcd_display_on_def lcd_clear_def
      delay_ms_def delay_us_def pin_write_def lcd_consts)

lemma toggle_transmissions:
  "sent (lcd_display_off s) = sent s @ [(LCD_DISPLAYCONTROL OR display_control (lcd_display_off s), 0)]"
  "held (lcd_display_off s) = held s @ [(display_control (lcd_display_off s), display_mode (lcd_display_off s))]"
  "trace (lcd_display_off s) = trace s @ send_events s (LCD_DISPLAYCONTROL OR display_control (lcd_display_off s)) 0"
  "sent (lcd_display_on s) = sent s @ [(LCD_DISPLAYCONTROL OR display_control (lcd_display_on s), 0)]"
  "held (lcd_display_on s) = held s @ [(display_control (lcd_display_on s), display_mode (lcd_display_on s))]"
  "trace (lcd_display_on s) = trace s @ send_events s (LCD_DISPLAYCONTROL OR display_control (lcd_display_on s)) 0"
  "sent (lcd_cursor_on s) = sent s @ [(LCD_DISPLAYCONTROL OR display_control (lcd_cursor_on s), 0)]"
  "held (lcd_cursor_on s) = held s @ [(display_control (lcd_cursor_on s), display_mode (lcd_cursor_on s))]"
  "trace (lcd_cursor_on s) = trace s @ send_events s (LCD_DISPLAYCONTROL OR display_control (lcd_cursor_on s)) 0"
  "sent (lcd_cursor_off s) = sent s @ [(LCD_DISPLAYCONTROL OR display_control (lcd_cursor_off s), 0)]"
  "held (lcd_cursor_off s) = held s @ [(display_control (lcd_cursor_off s), display_mode (lcd_cursor_off s))]"
  "trace (lcd_cursor_off s) = trace s @ send_events s (LCD_DISPLAYCONTROL OR display_control (lcd_cursor_off s)) 0"
  "sent (lcd_blink_on s) = sent s @ [(LCD_DISPLAYCONTROL OR display_control (lcd_blink_on s), 0)]"
  "held (lcd_blink_on s) = held s @ [(display_control (lcd_blink_on s), display_mode (lcd_blink_on s))]"
  "trace (lcd_blink_on s) = trace s @ send_events s (LCD_DISPLAYCONTROL OR display_control (lcd_blink_on s)) 0"
  "sent (lcd_blink_off s) = sent s @ [(LCD_DISPLAYCONTROL OR display_control (lcd_blink_off s), 0)]"
  "held (lcd_blink_off s) = held s @ [(display_control (lcd_blink_off s), display_mode (lcd_blink_off s))]"
  "trace (lcd_blink_off s) = trace s @ send_events s (LCD_DISPLAYCONTROL OR display_control (lcd_blink_off s)) 0"
  "sent (lcd_autoscroll_on s) = sent s @ [(LCD_ENTRYMODESET OR display_mode (lcd_autoscroll_on s), 0)]"
  "held (lcd_autoscroll_on s) = held s @ [(display_control (lcd_autoscroll_on s), display_mode (lcd_autoscroll_on s))]"
  "trace (lcd_autoscroll_on s) = trace s @ send_events s (LCD_ENTRYMODESET OR display_mode (lcd_autoscroll_on s)) 0"
  "sent (lcd_autoscroll_off s) = sent s @ [(LCD_ENTRYMODESET OR display_mode (lcd_autoscroll_off s), 0)]"
  "held (lcd_autoscroll_off s) = held s @ [(display_control (lcd_autoscroll_off s), display_mode (lcd_autoscroll_off s))]"
  "trace (lcd_autoscroll_off s) = trace s @ send_events s (LCD_ENTRYMODESET OR display_mode (lcd_autoscroll_off s)) 0"
  "sent (lcd_right_to_left s) = sent s @ [(LCD_ENTRYMODESET OR display_mode (lcd_right_to_left s), 0)]"
  "held (lcd_right_to_left s) = held s @ [(display_control (lcd_right_to_left s), display_mode (lcd_right_to_left s))]"
  "trace (lcd_right_to_left s) = trace s @ send_events s (LCD_ENTRYMODESET OR display_mode (lcd_right_to_left s)) 0"
  "sent (lcd_left_to_right s) = sent s @ [(LCD_ENTRYMODESET OR display_mode (lcd_left_to_right s), 0)]"
  "held (lcd_left_to_right s) = held s @ [(display_control (lcd_left_to_right s), display_mode (lcd_left_to_right s))]"
  "trace (lcd_left_to_right s) = trace s @ send_events s (LCD_ENTRYMODESET OR display_mode (lcd_left_to_right s)) 0"
  by (simp_all add: Let_def trace_lcd_command send_events_def nibble_events_def pulse_events_def
      lcd_display_off_def lcd_display_on_def lcd_cursor_on_def lcd_cursor_off_def lcd_blink_on_def
      lcd_blink_off_def lcd_autoscroll_on_def lcd_autoscroll_off_def lcd_right_to_left_def lcd_left_to_right_def)

lemma toggle_bytes:
  "display_control (lcd_display_off s) = display_control s AND NOT LCD_DISPLAYON"
  "display_mode (lcd_display_off s) = display_mode s"
  "display_control (lcd_display_on s) = display_control s OR LCD_DISPLAYON"
  "display_mode (lcd_display_on s) = display_mode s"
  "display_control (lcd_cursor_on s) = display_control s OR LCD_CURSORON"
  "display_mode (lcd_cursor_on s) = display_mode s"
  "display_control (lcd_cursor_off s) = display_control s AND NOT LCD_CURSORON"
  "display_mode (lcd_cursor_off s) = display_mode s"
  "display_control (lcd_blink_on s) = display_control s OR LCD_BLINKON"
  "display_mode (lcd_blink_on s) = display_mode s"
  "display_control (lcd_blink_off s) = display_control s AND NOT LCD_BLINKON"
  "display_mode (lcd_blink_off s) = display_mode s"
  "display_mode (lcd_autoscroll_on s) = display_mode s OR LCD_ENTRYSHIFTINCREMENT"
  "display_control (lcd_autoscroll_on s) = display_control s"
  "display_mode (lcd_autoscroll_off s) = display_mode s AND NOT LCD_ENTRYSHIFTINCREMENT"
  "display_control (lcd_autoscroll_off s) = display_control s"
  "display_mode (lcd_right_to_left s) = display_mode s AND NOT LCD_ENTRYLEFT"
  "display_control (lcd_right_to_left s) = display_control s"
  "display_mode (lcd_left_to_right s) = display_mode s OR LCD_ENTRYLEFT"
  "display_control (lcd_left_to_right s) = display_control s"
  by (simp_all add: Let_def
      lcd_display_off_def lcd_display_on_def lcd_cursor_on_def lcd_cursor_off_def lcd_blink_on_def
      lcd_blink_off_def lcd_autoscroll_on_def lcd_autoscroll_off_def lcd_right_to_left_def lcd_left_to_right_def)

lemma exec_preserves:
  assumes send: "\<And>v m s. Q s \<Longrightarrow> Q (lcd_send v m s)"
    and wait: "\<And>t s. Q s \<Longrightarrow> Q (delay_ms t s)"
    and ctl: "\<And>x s. Q s \<Longrightarrow> Q (s\<lparr>display_control := x\<rparr>)"
    and mode: "\<And>y s. Q s \<Longrightarrow> Q (s\<lparr>display_mode := y\<rparr>)"
    and e: "exec c s = Some s'" and ni: "\<not> is_init c" and q: "Q s"
  shows "Q s'"
proof -
  have cmd: "Q (lcd_command b s)" if "Q s" for b s
    unfolding lcd_command_def using that by (rule send)
  have chr: "Q (lcd_write_char b s)" if "Q s" for b s
    unfolding lcd_write_char_def lcd_write_def using that by (rule send)
  have str: "Q s'" if "lcd_write_string buf s = Some s'" for buf
    using that [unfolded lcd_write_string_def] q chr by (rule lcd_write_string_from_preserves)
  show ?thesis
  proof (cases c)
    case (Init rs en d4 d5 d6 d7)
    with ni show ?thesis by simp
  next
    case (SetCursor col row)
    have "lcd_set_cursor col row s =
       Some (lcd_command (LCD_SETDDRAMADDR OR
         (ucast col + row_offsets ! min (unat row) (min (length row_offsets - 1) (nat NUM_LINES - 1)))) s)"
      unfolding lcd_set_cursor_def by (rule lcd_set_cursor_lines_clamp) (simp add: NUM_LINES_def)
    with e SetCursor cmd [OF q] show ?thesis by auto
  next
    case (WriteChar ch)
    with e chr [OF q] show ?thesis by auto
  next
    case (WriteString buf)
    with e show ?thesis by (auto intro: str)
  next
    case (WriteInt num)
    with e show ?thesis
      by (auto simp: lcd_write_int_def Let_def split: if_splits intro: str)
  next
    case (WriteFloat formatted)
    with e show ?thesis
      by (auto simp: lcd_write_float_def split: if_splits intro: str)
  qed (use e q in \<open>auto simp: Let_def lcd_display_off_def lcd_display_on_def lcd_clear_def
      lcd_home_def lcd_shift_left_def lcd_shift_right_def lcd_cursor_on_def lcd_cursor_off_def
      lcd_blink_on_def lcd_blink_off_def lcd_autoscroll_on_def lcd_autoscroll_off_def
      lcd_right_to_left_def lcd_left_to_right_def intro!: cmd wait ctl mode\<close>)
qed

lemma run_preserves:
  assumes send: "\<And>v m s. Q s \<Longrightarrow> Q (lcd_send v m s)"
    and wait: "\<And>t s. Q s \<Longrightarrow> Q (delay_ms t s)"
    and ctl: "\<And>x s. Q s \<Longrightarrow> Q (s\<lparr>display_control := x\<rparr>)"
    and mode: "\<And>y s. Q s \<Longrightarrow> Q (s\<lparr>display_mode := y\<rparr>)"
  shows "run cs s = Some s' \<Longrightarrow> \<forall>c \<in> set cs. \<not> is_init c \<Longrightarrow> Q s \<Longrightarrow> Q s'"
proof (induction cs arbitrary: s)
  case Nil
  then show ?case by simp
next
  case (Cons c cs)
  from Cons.prems(1) obtain s1 where e: "exec c s = Some s1" and r: "run cs s1 = Some s'"
    by (auto split: option.splits)
  from Cons.prems(2) have ni: "\<not> is_init c" and rest: "\<forall>c \<in> set cs. \<not> is_init c"
    by simp_all
  have "Q s1" using send wait ctl mode e ni Cons.prems(3) by (rule exec_preserves)
  with r rest show ?case by (intro Cons.IH)
qed

lemma bus_ok_run:
  assumes "run cs s = Some s'" and "\<forall>c \<in> set cs. \<not> is_init c" and "bus_ok t0 l0 s"
  shows "bus_ok t0 l0 s'"
  using _ _ _ _ assms
  by (rule run_preserves [where Q = "bus_ok t0 l0"])
     (simp_all add: bus_ok_send bus_ok_passive)

lemma trace_lcd_init:
  "trace (lcd_init rs en d4 d5 d6 d7 s) =
     trace s @ [DelayMs 50, PinWrite rs 0] @
     nibble_events (lcd_init rs en d4 d5 d6 d7 s) 0x03 @ [DelayMs 5] @
     nibble_events (lcd_init rs en d4 d5 d6 d7 s) 0x03 @ [DelayMs 5] @
     nibble_events (lcd_init rs en d4 d5 d6 d7 s) 0x03 @ [DelayUs 150] @
     nibble_events (lcd_init rs en d4 d5 d6 d7 s) 0x02 @
     send_events (lcd_init rs en d4 d5 d6 d7 s) 0x28 0 @
     send_events (lcd_init rs en d4 d5 d6 d7 s) 0x0C 0 @
     send_events (lcd_init rs en d4 d5 d6 d7 s) 0x01 0 @ [DelayMs 2] @
     send_events (lcd_init rs en d4 d5 d6 d7 s) 0x06 0"
  unfolding send_events_def nibble_events_def pulse_events_def lcd_init_fields
  by (simp add: lcd_init_def Let_def trace_lcd_command trace_lcd_display_on trace_lcd_clear
      trace_lcd_write_data delay_ms_def delay_us_def pin_write_def lcd_consts
      send_events_def nibble_events_def pulse_events_def)

lemma bus_ok_init:
  assumes "distinct [rs, en, d4, d5, d6, d7]"
  shows "bus_ok (length (trace s)) (length (sent s)) (lcd_init rs en d4 d5 d6 d7 s)"
proof -
  let ?s = "lcd_init rs en d4 d5 d6 d7 s"
  have d: "pins_distinct ?s"
    using assms by (simp add: pins_distinct_def lcd_init_fields)
  have rs: "rs = rs_pin ?s" by (simp add: lcd_init_fields)
  have tr: "drop (length (trace s)) (trace ?s) =
     [DelayMs 50, PinWrite (rs_pin ?s) 0] @
     nibble_events ?s 0x03 @ [DelayMs 5] @
     nibble_events ?s 0x03 @ [DelayMs 5] @
     nibble_events ?s 0x03 @ [DelayUs 150] @
     nibble_events ?s 0x02 @
     send_events ?s 0x28 0 @ send_events ?s 0x0C 0 @
     send_events ?s 0x01 0 @ [DelayMs 2] @ send_events ?s 0x06 0"
    by (subst trace_lcd_init, subst (1) rs) simp
  have se: "drop (length (sent s)) (sent ?s) = [(0x28, 0), (0x0C, 0), (0x01, 0), (0x06, 0)]"
    by (simp add: lcd_init_fields)
  have three: "(3 :: u8) AND 0xF = 3" "(2 :: u8) AND 0xF = 2" by simp_all
  have en: "\<not> en_line (bus_run ?s (drop (length (trace s)) (trace ?s)))"
    unfolding tr bus_run_def
    by (simp add: idle_bus_def bus_nibble [OF d] bus_send [OF d] bus_step_pins [OF d]
        del: bus_step.simps(1))
  have la: "latched (bus_run ?s (drop (length (trace s)) (trace ?s))) =
      [(False, 3), (False, 3), (False, 3), (False, 2)] @
      concat (map nibbles_of [(0x28, 0), (0x0C, 0), (0x01, 0), (0x06, 0)])"
    unfolding tr bus_run_def
    by (simp add: idle_bus_def bus_nibble [OF d] bus_send [OF d] bus_step_pins [OF d] three
        del: bus_step.simps(1))
  show ?thesis
    unfolding bus_ok_def se using d en la
    by (simp add: lcd_init_fields trace_lcd_init is_display_control_def is_entry_mode_set_def)
qed

lemma pair_up_nibbles_of: "pair_up (nibbles_of x @ ns) = as_read x # pair_up ns"
  unfolding nibbles_of_def as_read_def
  by (simp only: append_Cons append_Nil pair_up.simps byte_of_nibbles)

lemma pair_up_nibbles: "pair_up (concat (map nibbles_of xs)) = map as_read xs"
  by (induction xs) (simp_all add: pair_up_nibbles_of)

lemma as_read_kind:
  "is_display_control (as_read x) = is_display_control x"
  "is_entry_mode_set (as_read x) = is_entry_mode_set x"
  "fst (as_read x) = fst x"
  by (simp_all add: as_read_def is_display_control_def is_entry_mode_set_def)

lemma last_commands_as_read:
  "last_display_control (map as_read xs) = last_display_control xs"
  "last_entry_mode (map as_read xs) = last_entry_mode xs"
  by (simp_all add: last_display_control_def last_entry_mode_def Let_def filter_map o_def
      as_read_kind last_map)

lemma last_commands_suffix:
  "filter is_display_control new \<noteq> [] \<Longrightarrow>
     last_display_control (old @ new) = last_display_control new"
  "filter is_entry_mode_set new \<noteq> [] \<Longrightarrow>
     last_entry_mode (old @ new) = last_entry_mode new"
  by (simp_all add: last_display_control_def last_entry_mode_def Let_def)

lemma controller_reads_what_was_sent:
  assumes d: "distinct [rs, en, d4, d5, d6, d7]"
    and ni: "\<forall>c \<in> set calls. \<not> is_init c"
    and r: "run (Init rs en d4 d5 d6 d7 # calls) s = Some s'"
  shows "controller_bytes s' (drop (length (trace s)) (trace s')) =
      map as_read (drop (length (sent s)) (sent s'))"
    and "last_display_control (controller_bytes s' (drop (length (trace s)) (trace s'))) =
      Some (display_control s')"
    and "last_entry_mode (controller_bytes s' (drop (length (trace s)) (trace s'))) =
      Some (display_mode s')"
proof -
  let ?l0 = "length (sent s)"
  from r have r': "run calls (lcd_init rs en d4 d5 d6 d7 s) = Some s'" by simp
  have ok: "bus_ok (length (trace s)) ?l0 s'"
    using r' ni bus_ok_init [OF d] by (rule bus_ok_run)
  then have la: "latched (bus_run s' (drop (length (trace s)) (trace s'))) =
        [(False, 3), (False, 3), (False, 3), (False, 2)] @
        concat (map nibbles_of (drop ?l0 (sent s')))"
    and c: "filter is_display_control (drop ?l0 (sent s')) \<noteq> []"
    and m: "filter is_entry_mode_set (drop ?l0 (sent s')) \<noteq> []"
    by (simp_all add: bus_ok_def)
  show bytes: "controller_bytes s' (drop (length (trace s)) (trace s')) =
      map as_read (drop ?l0 (sent s'))"
    unfolding controller_bytes_def la by (simp add: pair_up_nibbles)
  from run_after_init_synced [OF r]
  have "last_display_control (take ?l0 (sent s') @ drop ?l0 (sent s')) = Some (display_control s')"
    and "last_entry_mode (take ?l0 (sent s') @ drop ?l0 (sent s')) = Some (display_mode s')"
    by (simp_all add: driver_inv_def synced_def)
  then have "last_display_control (drop ?l0 (sent s')) = Some (display_control s')"
    and "last_entry_mode (drop ?l0 (sent s')) = Some (display_mode s')"
    by (simp_all only: last_commands_suffix(1) [OF c] last_commands_suffix(2) [OF m])
  then show "last_display_control (controller_bytes s' (drop (length (trace s)) (trace s'))) =
      Some (display_control s')"
    and "last_entry_mode (controller_bytes s' (drop (length (trace s)) (trace s'))) =
      Some (display_mode s')"
    unfolding bytes by (simp_all only: last_commands_as_read)
qed

text \<open>
  C6. Take any starting state, a call of \<open>lcd_init\<close> with six different pins and then any
  sequence of the other public calls that returns. Reading the pin events emitted since the
  start of that \<open>lcd_init\<close> as the controller does (a nibble is latched at each falling
  edge of the enable line; after the four single nibbles of \<open>lcd_init\<close> the nibbles are
  taken in pairs), \<open>display_control\<close> equals the payload of the last Display Control
  command the controller has read and \<open>display_mode\<close> equals the payload of the last
  Entry Mode Set command it has read; the bytes it has read are exactly the bytes handed to
  \<open>lcd_send\<close>. The same equalities hold on the log of \<open>lcd_send\<close> calls for every sequence
  of public calls after an \<open>lcd_init\<close>, with any pins. Each of the ten operations that
  change one of the two bytes emits exactly one transfer and nothing else: the command with
  the full new byte, made while the globals already hold the new values. \<open>lcd_init\<close> emits
  exactly its fixed sequence, whose four byte transfers are: Function Set, while both bytes
  still hold their old values; Display Control with the new \<open>display_control\<close>, which the
  globals hold from that transfer on; Clear Display, while \<open>display_mode\<close> still holds its
  old value; Entry Mode Set with the new \<open>display_mode\<close>. So no transfer falls between a
  change of one of the bytes and the transfer of its command.
\<close>

theorem state_bytes_mirror_last_commands:
  "(distinct [rs, en, dat4, dat5, dat6, dat7] \<and> (\<forall>c \<in> set calls. \<not> is_init c) \<and>
    run (Init rs en dat4 dat5 dat6 dat7 # calls) s = Some s' \<longrightarrow>
      last_display_control (controller_bytes s' (drop (length (trace s)) (trace s'))) =
        Some (display_control s')
      \<and> last_entry_mode (controller_bytes s' (drop (length (trace s)) (trace s'))) =
        Some (display_mode s')
      \<and> controller_bytes s' (drop (length (trace s)) (trace s')) =
        map as_read (drop (length (sent s)) (sent s')))
   \<and> (run (Init rs en dat4 dat5 dat6 dat7 # calls) s = Some s' \<longrightarrow>
      last_display_control (sent s') = Some (display_control s')
      \<and> last_entry_mode (sent s') = Some (display_mode s'))
   \<and> trace (lcd_display_off s) = trace s @ send_events s (LCD_DISPLAYCONTROL OR display_control (lcd_display_off s)) 0
   \<and> sent (lcd_display_off s) = sent s @ [(LCD_DISPLAYCONTROL OR display_control (lcd_display_off s), 0)]
   \<and> held (lcd_display_off s) = held s @ [(display_control (lcd_display_off s), display_mode (lcd_display_off s))]
   \<and> trace (lcd_display_on s) = trace s @ send_events s (LCD_DISPLAYCONTROL OR display_control (lcd_display_on s)) 0
   \<and> sent (lcd_display_on s) = sent s @ [(LCD_DISPLAYCONTROL OR display_control (lcd_display_on s), 0)]
   \<and> held (lcd_display_on s) = held s @ [(display_control (lcd_display_on s), display_mode (lcd_display_on s))]
   \<and> trace (lcd_cursor_on s) = trace s @ send_events s (LCD_DISPLAYCONTROL OR display_control (lcd_cursor_on s)) 0
   \<and> sent (lcd_cursor_on s) = sent s @ [(LCD_DISPLAYCONTROL OR display_control (lcd_cursor_on s), 0)]
   \<and> held (lcd_cursor_on s) = held s @ [(display_control (lcd_cursor_on s), display_mode (lcd_cursor_on s))]
   \<and> trace (lcd_cursor_off s) = trace s @ send_events s (LCD_DISPLAYCONTROL OR display_control (lcd_cursor_off s)) 0
   \<and> sent (lcd_cursor_off s) = sent s @ [(LCD_DISPLAYCONTROL OR display_control (lcd_cursor_off s), 0)]
   \<and> held (lcd_cursor_off s) = held s @ [(display_control (lcd_cursor_off s), display_mode (lcd_cursor_off s))]
   \<and> trace (lcd_blink_on s) = trace s @ send_events s (LCD_DISPLAYCONTROL OR display_control (lcd_blink_on s)) 0
   \<and> sent (lcd_blink_on s) = sent s @ [(LCD_DISPLAYCONTROL OR display_control (lcd_blink_on s), 0)]
   \<and> held (lcd_blink_on s) = held s @ [(display_control (lcd_blink_on s), display_mode (lcd_blink_on s))]
   \<and> trace (lcd_blink_off s) = trace s @ send_events s (LCD_DISPLAYCONTROL OR display_control (lcd_blink_off s)) 0
   \<and> sent (lcd_blink_off s) = sent s @ [(LCD_DISPLAYCONTROL OR display_control (lcd_blink_off s), 0)]
   \<and> held (lcd_blink_off s) = held s @ [(display_control (lcd_blink_off s), display_mode (lcd_blink_off s))]
   \<and> trace (lcd_autoscroll_on s) = trace s @ send_events s (LCD_ENTRYMODESET OR display_mode (lcd_autoscroll_on s)) 0
   \<and> sent (lcd_autoscroll_on s) = sent s @ [(LCD_ENTRYMODESET OR display_mode (lcd_autoscroll_on s), 0)]
   \<and> held (lcd_autoscroll_on s) = held s @ [(display_control (lcd_autoscroll_on s), display_mode (lcd_autoscroll_on s))]
   \<and> trace (lcd_autoscroll_off s) = trace s @ send_events s (LCD_ENTRYMODESET OR display_mode (lcd_autoscroll_off s)) 0
   \<and> sent (lcd_autoscroll_off s) = sent s @ [(LCD_ENTRYMODESET OR display_mode (lcd_autoscroll_off s), 0)]
   \<and> held (lcd_autoscroll_off s) = held s @ [(display_control (lcd_autoscroll_off s), display_mode (lcd_autoscroll_off s))]
   \<and> trace (lcd_right_to_left s) = trace s @ send_events s (LCD_ENTRYMODESET OR display_mode (lcd_right_to_left s)) 0
   \<and> sent (lcd_right_to_left s) = sent s @ [(LCD_ENTRYMODESET OR display_mode (lcd_right_to_left s), 0)]
   \<and> held (lcd_right_to_left s) = held s @ [(display_control (lcd_right_to_left s), display_mode (lcd_right_to_left s))]
   \<and> trace (lcd_left_to_right s) = trace s @ send_events s (LCD_ENTRYMODESET OR display_mode (lcd_left_to_right s)) 0
   \<and> sent (lcd_left_to_right s) = sent s @ [(LCD_ENTRYMODESET OR display_mode (lcd_left_to_right s), 0)]
   \<and> held (lcd_left_to_right s) = held s @ [(display_control (lcd_left_to_right s), display_mode (lcd_left_to_right s))]
   \<and> (let s1 = lcd_init rs en dat4 dat5 dat6 dat7 s in
        trace s1 =
          trace s @ [DelayMs 50, PinWrite rs 0] @
          nibble_events s1 0x03 @ [DelayMs 5] @
          nibble_events s1 0x03 @ [DelayMs 5] @
          nibble_events s1 0x03 @ [DelayUs 150] @
          nibble_events s1 0x02 @
          send_events s1 (LCD_FUNCTIONSET OR display_function s1) 0 @
          send_events s1 (LCD_DISPLAYCONTROL OR display_control s1) 0 @
          send_events s1 LCD_CLEARDISPLAY 0 @ [DelayMs 2] @
          send_events s1 (LCD_ENTRYMODESET OR display_mode s1) 0
        \<and> sent s1 = sent s @
          [(LCD_FUNCTIONSET OR display_function s1, 0),
           (LCD_DISPLAYCONTROL OR display_control s1, 0),
           (LCD_CLEARDISPLAY, 0),
           (LCD_ENTRYMODESET OR display_mode s1, 0)]
        \<and> held s1 = held s @
          [(display_control s, display_mode s),
           (display_control s1, display_mode s),
           (display_control s1, display_mode s),
           (display_control s1, display_mode s1)])"
proof -
  have bus: "(distinct [rs, en, dat4, dat5, dat6, dat7] \<and> (\<forall>c \<in> set calls. \<not> is_init c) \<and>
    run (Init rs en dat4 dat5 dat6 dat7 # calls) s = Some s' \<longrightarrow>
      last_display_control (controller_bytes s' (drop (length (trace s)) (trace s'))) =
        Some (display_control s')
      \<and> last_entry_mode (controller_bytes s' (drop (length (trace s)) (trace s'))) =
        Some (display_mode s')
      \<and> controller_bytes s' (drop (length (trace s)) (trace s')) =
        map as_read (drop (length (sent s)) (sent s')))"
    using controller_reads_what_was_sent [of rs en dat4 dat5 dat6 dat7 calls s s'] by blast
  have log: "(run (Init rs en dat4 dat5 dat6 dat7 # calls) s = Some s' \<longrightarrow>
      last_display_control (sent s') = Some (display_control s')
      \<and> last_entry_mode (sent s') = Some (display_mode s'))"
    using run_after_init_synced [of rs en dat4 dat5 dat6 dat7 calls s s']
    by (simp add: driver_inv_def synced_def)
  have ini: "let s1 = lcd_init rs en dat4 dat5 dat6 dat7 s in
        trace s1 =
          trace s @ [DelayMs 50, PinWrite rs 0] @
          nibble_events s1 0x03 @ [DelayMs 5] @
          nibble_events s1 0x03 @ [DelayMs 5] @
          nibble_events s1 0x03 @ [DelayUs 150] @
          nibble_events s1 0x02 @
          send_events s1 (LCD_FUNCTIONSET OR display_function s1) 0 @
          send_events s1 (LCD_DISPLAYCONTROL OR display_control s1) 0 @
          send_events s1 LCD_CLEARDISPLAY 0 @ [DelayMs 2] @
          send_events s1 (LCD_ENTRYMODESET OR display_mode s1) 0
        \<and> sent s1 = sent s @
          [(LCD_FUNCTIONSET OR display_function s1, 0),
           (LCD_DISPLAYCONTROL OR display_control s1, 0),
           (LCD_CLEARDISPLAY, 0),
           (LCD_ENTRYMODESET OR display_mode s1, 0)]
        \<and> held s1 = held s @
          [(display_control s, display_mode s),
           (display_control s1, display_mode s),
           (display_control s1, display_mode s),
           (display_control s1, display_mode s1)]"
    unfolding Let_def
    by (intro conjI, subst trace_lcd_init)
      (simp_all add: lcd_init_fields lcd_init_held lcd_consts)
  show ?thesis
    using bus log ini by (simp only: toggle_transmissions simp_thms)
qed

theorem state_bytes_mirror_last_commands_witness:
  "distinct [11, 12, 4, 5, 6, 7 :: u32]
   \<and> \<not> is_init CursorOn \<and> \<not> is_init (WriteChar 0x48) \<and> \<not> is_init (SetCursor 0 1)
   \<and> \<not> is_init RightToLeft
   \<and> run (Init 11 12 4 5 6 7 # [CursorOn, WriteChar 0x48, SetCursor 0 1, RightToLeft])
       power_on_state =
     Some (lcd_right_to_left (lcd_command 0xC0 (lcd_write_char 0x48 (lcd_cursor_on ready_state))))
   \<and> controller_bytes
         (lcd_right_to_left (lcd_command 0xC0 (lcd_write_char 0x48 (lcd_cursor_on ready_state))))
         (trace (lcd_right_to_left
            (lcd_command 0xC0 (lcd_write_char 0x48 (lcd_cursor_on ready_state))))) =
       [(0x28, 0), (0x0C, 0), (0x01, 0), (0x06, 0), (0x0E, 0), (0x48, 1), (0xC0, 0), (0x04, 0)]
   \<and> last_display_control (controller_bytes
         (lcd_right_to_left (lcd_command 0xC0 (lcd_write_char 0x48 (lcd_cursor_on ready_state))))
         (trace (lcd_right_to_left
            (lcd_command 0xC0 (lcd_write_char 0x48 (lcd_cursor_on ready_state)))))) = Some 0x06
   \<and> last_entry_mode (controller_bytes
         (lcd_right_to_left (lcd_command 0xC0 (lcd_write_char 0x48 (lcd_cursor_on ready_state))))
         (trace (lcd_right_to_left
            (lcd_command 0xC0 (lcd_write_char 0x48 (lcd_cursor_on ready_state)))))) = Some 0x00"
proof -
  let ?s' = "lcd_right_to_left
    (lcd_command 0xC0 (lcd_write_char 0x48 (lcd_cursor_on ready_state)))"
  have d: "distinct [11, 12, 4, 5, 6, 7 :: u32]" by simp
  have ni: "\<forall>c \<in> set [CursorOn, WriteChar 0x48, SetCursor 0 1, RightToLeft]. \<not> is_init c"
    by simp
  have r: "run (Init 11 12 4 5 6 7 # [CursorOn, WriteChar 0x48, SetCursor 0 1, RightToLeft])
      power_on_state = Some ?s'"
    by (simp add: ready_state_def lcd_set_cursor_def lcd_set_cursor_lines_def NUM_LINES_def
        Let_def row_offsets_at_def row_offsets_def LCD_SETDDRAMADDR_def)
  have c: "display_control ?s' = 0x06" and m: "display_mode ?s' = 0x00"
    by (simp_all add: toggle_bytes ready_state_fields lcd_consts)
  have l: "sent ?s' =
      [(0x28, 0), (0x0C, 0), (0x01, 0), (0x06, 0), (0x0E, 0), (0x48, 1), (0xC0, 0), (0x04, 0)]"
    by (simp add: toggle_transmissions toggle_bytes ready_state_fields lcd_consts)
  have p: "trace power_on_state = []" "sent power_on_state = []"
    by (simp_all add: power_on_state_def)
  note th = state_bytes_mirror_last_commands
    [of 11 12 4 5 6 7 "[CursorOn, WriteChar 0x48, SetCursor 0 1, RightToLeft]"
       power_on_state ?s', THEN conjunct1, rule_format, OF conjI [OF d conjI [OF ni r]]]
  have b: "controller_bytes ?s' (trace ?s') =
      [(0x28, 0), (0x0C, 0), (0x01, 0), (0x06, 0), (0x0E, 0), (0x48, 1), (0xC0, 0), (0x04, 0)]"
    using th [THEN conjunct2, THEN conjunct2] by (simp add: p l as_read_def)
  have dc: "last_display_control (controller_bytes ?s' (trace ?s')) = Some 0x06"
    using th [THEN conjunct1] by (simp add: p c)
  have em: "last_entry_mode (controller_bytes ?s' (trace ?s')) = Some 0x00"
    using th [THEN conjunct2, THEN conjunct1] by (simp add: p m)
  have ni': "\<not> is_init CursorOn" "\<not> is_init (WriteChar 0x48)" "\<not> is_init (SetCursor 0 1)"
    "\<not> is_init RightToLeft"
    by simp_all
  from d ni' r b dc em show ?thesis by (intro conjI)
qed

end
